theory Spec2Isabelle
  imports Complex_Main "HOL-Library.AList"
begin

section \<open>The entity manager (engine/src/core/entity-manager.js)\<close>

text \<open>
  The JavaScript \<^verbatim>\<open>Map\<close> iterates in insertion order: \<^verbatim>\<open>set\<close> on a key already
  present replaces the value where it stands, \<^verbatim>\<open>set\<close> on a new key appends, and
  \<^verbatim>\<open>delete\<close> drops the entry. An association list with \<^const>\<open>AList.update\<close>,
  \<^const>\<open>AList.delete\<close> and \<^const>\<open>map_of\<close> has exactly this behaviour, so
  \<^verbatim>\<open>this.entities\<close> (a Map from entity id to a Map from component type to payload)
  is a list of pairs whose second components are again lists of pairs.

  Entity ids are JavaScript numbers used as integers (the allocator counts up from 1), and a
  caller may pass any number, or nothing at all: the parameter is an \<open>int option\<close>,
  \<open>None\<close> standing for the default \<^verbatim>\<open>null\<close>. Component types are strings. The payload
  type \<open>'d\<close> is left open here; the systems below use \<open>component\<close>.
\<close>

type_synonym entity_id = int
type_synonym component_type = string

text \<open>
  A system is an object that may or may not carry each of the four methods the manager
  looks for. The manager only tests for a method and calls it, so a system is modelled by
  its name and by which methods it has, and every call the manager makes is recorded, in
  order, in the list of calls the operation returns.
\<close>

record system =
  sys_name :: string
  has_update :: bool
  has_onComponentAdded :: bool
  has_onComponentRemoved :: bool
  has_onEntityDestroyed :: bool

datatype 'd hook_call =
    OnEntityDestroyed string entity_id
  | OnComponentAdded string entity_id component_type 'd
  | OnComponentRemoved string entity_id component_type
  | Update string real

datatype error = EntityNotFound | TypeError

record 'd entity_manager =
  entities :: "(entity_id \<times> (component_type \<times> 'd) list) list"
  nextEntityId :: int
  componentTypes :: "component_type list"
  systems :: "system list"

definition EntityManager :: "'d entity_manager" where
  "EntityManager = \<lparr>entities = [], nextEntityId = 1, componentTypes = [], systems = []\<rparr>"

text \<open>
  \<^verbatim>\<open>const entityId = id || this.nextEntityId++\<close>: a falsy \<^verbatim>\<open>id\<close> (\<^verbatim>\<open>null\<close> or the
  number 0) selects the allocator, and only then is the counter incremented.
\<close>

definition createEntity :: "entity_id option \<Rightarrow> 'd entity_manager \<Rightarrow> entity_id \<times> 'd entity_manager" where
  "createEntity eid s =
     (case (case eid of
              Some i \<Rightarrow> if i \<noteq> 0 then (i, s) else (nextEntityId s, s\<lparr>nextEntityId := nextEntityId s + 1\<rparr>)
            | None \<Rightarrow> (nextEntityId s, s\<lparr>nextEntityId := nextEntityId s + 1\<rparr>)) of
        (entityId, s1) \<Rightarrow> (entityId, s1\<lparr>entities := AList.update entityId [] (entities s1)\<rparr>))"

definition destroyEntity :: "entity_id \<Rightarrow> 'd entity_manager \<Rightarrow> 'd entity_manager \<times> 'd hook_call list" where
  "destroyEntity entityId s =
     (s\<lparr>entities := AList.delete entityId (entities s)\<rparr>,
      map (\<lambda>sys. OnEntityDestroyed (sys_name sys) entityId)
          (filter has_onEntityDestroyed (systems s)))"

text \<open>
  \<^verbatim>\<open>addComponent\<close> throws before it writes anything. The result pairs the outcome (the
  error, or the calls made) with the manager as the call leaves it.
\<close>

definition addComponent ::
  "entity_id \<Rightarrow> component_type \<Rightarrow> 'd \<Rightarrow> 'd entity_manager \<Rightarrow> (error + 'd hook_call list) \<times> 'd entity_manager" where
  "addComponent entityId componentType componentData s =
     (case map_of (entities s) entityId of
        None \<Rightarrow> (Inl EntityNotFound, s)
      | Some entity \<Rightarrow>
          (Inr (map (\<lambda>sys. OnComponentAdded (sys_name sys) entityId componentType componentData)
                    (filter has_onComponentAdded (systems s))),
           s\<lparr>componentTypes := (if componentType \<in> set (componentTypes s) then componentTypes s
                                  else componentTypes s @ [componentType]),
              entities := AList.update entityId
                            (AList.update componentType componentData entity) (entities s)\<rparr>))"

definition removeComponent ::
  "entity_id \<Rightarrow> component_type \<Rightarrow> 'd entity_manager \<Rightarrow> 'd entity_manager \<times> 'd hook_call list" where
  "removeComponent entityId componentType s =
     (case map_of (entities s) entityId of
        None \<Rightarrow> (s, [])
      | Some entity \<Rightarrow>
          (s\<lparr>entities := AList.update entityId (AList.delete componentType entity) (entities s)\<rparr>,
           map (\<lambda>sys. OnComponentRemoved (sys_name sys) entityId componentType)
               (filter has_onComponentRemoved (systems s))))"

definition getComponent :: "'d entity_manager \<Rightarrow> entity_id \<Rightarrow> component_type \<Rightarrow> 'd option" where
  "getComponent s entityId componentType =
     (case map_of (entities s) entityId of
        None \<Rightarrow> None
      | Some entity \<Rightarrow> map_of entity componentType)"

definition hasComponent :: "'d entity_manager \<Rightarrow> entity_id \<Rightarrow> component_type \<Rightarrow> bool" where
  "hasComponent s entityId componentType =
     (case map_of (entities s) entityId of
        None \<Rightarrow> False
      | Some entity \<Rightarrow> map_of entity componentType \<noteq> None)"

definition getEntitiesWithComponents :: "component_type list \<Rightarrow> 'd entity_manager \<Rightarrow> entity_id list" where
  "getEntitiesWithComponents types s =
     map fst (filter (\<lambda>(entityId, components).
                        list_all (\<lambda>type. map_of components type \<noteq> None) types)
                     (entities s))"

definition getAllEntities :: "'d entity_manager \<Rightarrow> entity_id list" where
  "getAllEntities s = map fst (entities s)"

definition getEntityCount :: "'d entity_manager \<Rightarrow> nat" where
  "getEntityCount s = length (entities s)"

definition addSystem :: "system \<Rightarrow> 'd entity_manager \<Rightarrow> 'd entity_manager" where
  "addSystem sys s = s\<lparr>systems := systems s @ [sys]\<rparr>"

definition removeSystem :: "system \<Rightarrow> 'd entity_manager \<Rightarrow> 'd entity_manager" where
  "removeSystem sys s = s\<lparr>systems := remove1 sys (systems s)\<rparr>"

definition update :: "real \<Rightarrow> 'd entity_manager \<Rightarrow> 'd hook_call list" where
  "update deltaTime s = map (\<lambda>sys. Update (sys_name sys) deltaTime) (filter has_update (systems s))"

text \<open>
  Systems hold the payload objects that \<^verbatim>\<open>getComponent\<close> hands out and assign to their
  fields. In the model a payload is a value, and such an assignment writes the changed
  payload back under the same entity and component type, in place.
\<close>

definition writeComponent :: "entity_id \<Rightarrow> component_type \<Rightarrow> 'd \<Rightarrow> 'd entity_manager \<Rightarrow> 'd entity_manager" where
  "writeComponent entityId componentType componentData s =
     (case map_of (entities s) entityId of
        None \<Rightarrow> s
      | Some entity \<Rightarrow>
          (case map_of entity componentType of
             None \<Rightarrow> s
           | Some _ \<Rightarrow> s\<lparr>entities := AList.update entityId
                                       (AList.update componentType componentData entity) (entities s)\<rparr>))"

subsection \<open>Sequences of operations\<close>

datatype store_op = Create "entity_id option" | Destroy entity_id

text \<open>
  \<open>run ops s\<close> performs the operations from left to right and collects the ids the
  \<^verbatim>\<open>createEntity\<close> calls returned, oldest first.
\<close>

fun run :: "store_op list \<Rightarrow> 'd entity_manager \<Rightarrow> 'd entity_manager \<times> entity_id list" where
  "run [] s = (s, [])"
| "run (Create eid # ops) s =
     (case createEntity eid s of (entityId, s1) \<Rightarrow>
        (case run ops s1 of (s2, ids) \<Rightarrow> (s2, entityId # ids)))"
| "run (Destroy entityId # ops) s = run ops (fst (destroyEntity entityId s))"

text \<open>An operation that leaves the choice of the id to the allocator.\<close>

fun allocating :: "store_op \<Rightarrow> bool" where
  "allocating (Create None) = True"
| "allocating (Create (Some i)) = (i = 0)"
| "allocating (Destroy _) = True"

text \<open>The managers a program can reach from \<^verbatim>\<open>new EntityManager()\<close>.\<close>

inductive reachable :: "'d entity_manager \<Rightarrow> bool" where
  reach_new: "reachable EntityManager"
| reach_create: "reachable s \<Longrightarrow> reachable (snd (createEntity eid s))"
| reach_destroy: "reachable s \<Longrightarrow> reachable (fst (destroyEntity entityId s))"
| reach_add: "reachable s \<Longrightarrow> reachable (snd (addComponent entityId componentType componentData s))"
| reach_remove: "reachable s \<Longrightarrow> reachable (fst (removeComponent entityId componentType s))"
| reach_write: "reachable s \<Longrightarrow> reachable (writeComponent entityId componentType componentData s)"
| reach_addSystem: "reachable s \<Longrightarrow> reachable (addSystem sys s)"
| reach_removeSystem: "reachable s \<Longrightarrow> reachable (removeSystem sys s)"

section \<open>Components (the component definitions module)\<close>

text \<open>
  JavaScript numbers are modelled as real numbers: the arithmetic of the systems is exact
  here, and rounding, infinities and NaN are outside the model. A nullable field is an
  \<open>option\<close>. Payloads are values; the model does not follow two entities sharing one
  payload object. The fields \<^verbatim>\<open>x\<close>, \<^verbatim>\<open>y\<close>, \<^verbatim>\<open>z\<close> of a vector are written \<open>X\<close>,
  \<open>Y\<close>, \<open>Z\<close>, and a parameter whose name is taken by a field or a library constant carries
  a \<open>0\<close> at its end.
\<close>

definition TRANSFORM :: component_type where "TRANSFORM = ''transform''"
definition MESH :: component_type where "MESH = ''mesh''"
definition MOVEMENT :: component_type where "MOVEMENT = ''movement''"
definition AI :: component_type where "AI = ''ai''"
definition HEALTH :: component_type where "HEALTH = ''health''"

record vec3 =
  X :: real
  Y :: real
  Z :: real

record transform =
  position :: vec3
  rotation :: vec3
  scale :: vec3

record mesh =
  geometry :: string
  material :: string
  castShadow :: bool
  receiveShadow :: bool

record movement =
  velocity :: vec3
  speed :: real
  hoverHeight :: real
  groundY :: real

record ai =
  behavior :: string
  targetPosition :: "vec3 option"
  lastDirectionChange :: real
  directionChangeInterval :: real
  wanderRadius :: real
  seekRange :: real
  state :: string

record health =
  maxHealth :: real
  currentHealth :: real
  isDead :: bool

datatype component =
    TransformC transform
  | MeshC mesh
  | MovementC movement
  | AIC ai
  | HealthC health

definition createTransformComponent :: "real \<Rightarrow> real \<Rightarrow> real \<Rightarrow> vec3 \<Rightarrow> transform" where
  "createTransformComponent px py pz rot =
     \<lparr>position = \<lparr>X = px, Y = py, Z = pz\<rparr>,
      rotation = \<lparr>X = X rot, Y = Y rot, Z = Z rot\<rparr>,
      scale = \<lparr>X = 1, Y = 1, Z = 1\<rparr>\<rparr>"

definition createMovementComponent :: "real \<Rightarrow> real \<Rightarrow> movement" where
  "createMovementComponent speed0 hoverHeight0 =
     \<lparr>velocity = \<lparr>X = 0, Y = 0, Z = 0\<rparr>, speed = speed0, hoverHeight = hoverHeight0, groundY = 0\<rparr>"

definition createAIComponent :: "string \<Rightarrow> vec3 option \<Rightarrow> ai" where
  "createAIComponent behavior0 targetPosition0 =
     \<lparr>behavior = behavior0, targetPosition = targetPosition0, lastDirectionChange = 0,
      directionChangeInterval = 2000, wanderRadius = 10, seekRange = 15, state = ''idle''\<rparr>"

text \<open>
  The systems read a payload under the key of its kind and use its fields at once. A
  payload of another kind under that key does not arise from the component factory; the
  JavaScript would fail on the first missing property, and the model answers
  \<open>TypeError\<close> as soon as such a payload is fetched.
\<close>

definition getTransform :: "component entity_manager \<Rightarrow> entity_id \<Rightarrow> error + transform option" where
  "getTransform s entityId =
     (case getComponent s entityId TRANSFORM of
        None \<Rightarrow> Inr None
      | Some (TransformC transform) \<Rightarrow> Inr (Some transform)
      | Some _ \<Rightarrow> Inl TypeError)"

definition getMovement :: "component entity_manager \<Rightarrow> entity_id \<Rightarrow> error + movement option" where
  "getMovement s entityId =
     (case getComponent s entityId MOVEMENT of
        None \<Rightarrow> Inr None
      | Some (MovementC movement) \<Rightarrow> Inr (Some movement)
      | Some _ \<Rightarrow> Inl TypeError)"

definition getAI :: "component entity_manager \<Rightarrow> entity_id \<Rightarrow> error + ai option" where
  "getAI s entityId =
     (case getComponent s entityId AI of
        None \<Rightarrow> Inr None
      | Some (AIC ai) \<Rightarrow> Inr (Some ai)
      | Some _ \<Rightarrow> Inl TypeError)"

section \<open>The movement system (engine/src/systems/movement-system.js)\<close>

definition applyHoverBehavior :: "transform \<Rightarrow> movement \<Rightarrow> real \<Rightarrow> movement" where
  "applyHoverBehavior transform movement deltaSeconds =
     (let targetY = groundY movement + hoverHeight movement;
          difference = targetY - Y (position transform);
          springStrength = 5.0
      in movement\<lparr>velocity := (velocity movement)\<lparr>Y := difference * springStrength\<rparr>\<rparr>)"

text \<open>The two \<^verbatim>\<open>while\<close> loops of \<^verbatim>\<open>lerpAngle\<close>.\<close>

function wrapDown :: "real \<Rightarrow> real" where
  "wrapDown diff = (if diff > pi then wrapDown (diff - 2 * pi) else diff)"
  by pat_completeness auto
termination
proof (relation "measure (\<lambda>diff. nat \<lceil>(diff - pi) / (2 * pi)\<rceil>)")
  show "wf (measure (\<lambda>diff. nat \<lceil>(diff - pi) / (2 * pi)\<rceil>))" by simp
next
  fix diff :: real
  assume gt: "pi < diff"
  have eq: "(diff - 2 * pi - pi) / (2 * pi) = (diff - pi) / (2 * pi) - 1"
    by (simp add: field_simps)
  have "0 < (diff - pi) / (2 * pi)" using gt by simp
  then have pos: "0 < \<lceil>(diff - pi) / (2 * pi)\<rceil>" by simp
  have "\<lceil>(diff - 2 * pi - pi) / (2 * pi)\<rceil> = \<lceil>(diff - pi) / (2 * pi)\<rceil> - 1"
    by (simp only: eq ceiling_diff_one)
  with pos have "nat \<lceil>(diff - 2 * pi - pi) / (2 * pi)\<rceil> < nat \<lceil>(diff - pi) / (2 * pi)\<rceil>"
    by linarith
  then show "(diff - 2 * pi, diff) \<in> measure (\<lambda>diff. nat \<lceil>(diff - pi) / (2 * pi)\<rceil>)"
    by (simp only: in_measure)
qed

function wrapUp :: "real \<Rightarrow> real" where
  "wrapUp diff = (if diff < - pi then wrapUp (diff + 2 * pi) else diff)"
  by pat_completeness auto
termination
proof (relation "measure (\<lambda>diff. nat \<lceil>(- pi - diff) / (2 * pi)\<rceil>)")
  show "wf (measure (\<lambda>diff. nat \<lceil>(- pi - diff) / (2 * pi)\<rceil>))" by simp
next
  fix diff :: real
  assume lt: "diff < - pi"
  have eq: "(- pi - (diff + 2 * pi)) / (2 * pi) = (- pi - diff) / (2 * pi) - 1"
    by (simp add: field_simps)
  have "0 < (- pi - diff) / (2 * pi)" using lt by simp
  then have pos: "0 < \<lceil>(- pi - diff) / (2 * pi)\<rceil>" by simp
  have "\<lceil>(- pi - (diff + 2 * pi)) / (2 * pi)\<rceil> = \<lceil>(- pi - diff) / (2 * pi)\<rceil> - 1"
    by (simp only: eq ceiling_diff_one)
  with pos have "nat \<lceil>(- pi - (diff + 2 * pi)) / (2 * pi)\<rceil> < nat \<lceil>(- pi - diff) / (2 * pi)\<rceil>"
    by linarith
  then show "(diff + 2 * pi, diff) \<in> measure (\<lambda>diff. nat \<lceil>(- pi - diff) / (2 * pi)\<rceil>)"
    by (simp only: in_measure)
qed

declare wrapDown.simps [simp del] wrapUp.simps [simp del]

definition lerpAngle :: "real \<Rightarrow> real \<Rightarrow> real \<Rightarrow> real" where
  "lerpAngle current target factor =
     (let diff = target - current;
          diff = wrapDown diff;
          diff = wrapUp diff
      in current + diff * factor)"

text \<open>
  \<^verbatim>\<open>Math.atan2(y, x)\<close> of the language's library: the angle of the point \<open>(x, y)\<close>, in
  \<open>[-\<pi>, \<pi>]\<close>.
\<close>

definition atan2 :: "real \<Rightarrow> real \<Rightarrow> real" where
  "atan2 y0 x0 =
     (if 0 < x0 then arctan (y0 / x0)
      else if x0 < 0 \<and> 0 \<le> y0 then arctan (y0 / x0) + pi
      else if x0 < 0 \<and> y0 < 0 then arctan (y0 / x0) - pi
      else if 0 < y0 then pi / 2
      else if y0 < 0 then - pi / 2
      else 0)"

text \<open>
  \<open>now\<close> is the value of \<^verbatim>\<open>Date.now()\<close>, in milliseconds, read in the middle of the
  function.
\<close>

definition updateEntityMovement ::
  "entity_id \<Rightarrow> real \<Rightarrow> real \<Rightarrow> component entity_manager \<Rightarrow> error + component entity_manager" where
  "updateEntityMovement entityId deltaTime now s =
     (case getTransform s entityId of
        Inl e \<Rightarrow> Inl e
      | Inr transform0 \<Rightarrow>
     (case getMovement s entityId of
        Inl e \<Rightarrow> Inl e
      | Inr movement0 \<Rightarrow>
     (case (transform0, movement0) of
        (None, _) \<Rightarrow> Inr s
      | (_, None) \<Rightarrow> Inr s
      | (Some transform, Some movement) \<Rightarrow>
          (let deltaSeconds = deltaTime / 1000;
               transform = transform\<lparr>position := (position transform)
                             \<lparr>X := X (position transform) + X (velocity movement) * deltaSeconds\<rparr>\<rparr>;
               transform = transform\<lparr>position := (position transform)
                             \<lparr>Z := Z (position transform) + Z (velocity movement) * deltaSeconds\<rparr>\<rparr>;
               movement = applyHoverBehavior transform movement deltaSeconds;
               damping = 0.95;
               movement = movement\<lparr>velocity := (velocity movement)\<lparr>X := X (velocity movement) * damping\<rparr>\<rparr>;
               movement = movement\<lparr>velocity := (velocity movement)\<lparr>Z := Z (velocity movement) * damping\<rparr>\<rparr>;
               time = now / 1000;
               bobFrequency = 2.0;
               bobAmplitude = 0.1;
               bobOffset = sin (time * bobFrequency + real_of_int entityId) * bobAmplitude;
               transform = transform\<lparr>position := (position transform)
                             \<lparr>Y := groundY movement + hoverHeight movement + bobOffset\<rparr>\<rparr>;
               speed1 = sqrt (X (velocity movement) * X (velocity movement)
                              + Z (velocity movement) * Z (velocity movement));
               transform =
                 (if speed1 > 0.1
                  then (let targetRotationY = atan2 (X (velocity movement)) (Z (velocity movement))
                        in transform\<lparr>rotation := (rotation transform)
                             \<lparr>Y := lerpAngle (Y (rotation transform)) targetRotationY (deltaSeconds * 3)\<rparr>\<rparr>)
                  else transform)
           in Inr (writeComponent entityId MOVEMENT (MovementC movement)
                    (writeComponent entityId TRANSFORM (TransformC transform) s))))))"

definition applyForce ::
  "entity_id \<Rightarrow> vec3 \<Rightarrow> component entity_manager \<Rightarrow> error + component entity_manager" where
  "applyForce entityId force s =
     (case getMovement s entityId of
        Inl e \<Rightarrow> Inl e
      | Inr None \<Rightarrow> Inr s
      | Inr (Some movement) \<Rightarrow>
          Inr (writeComponent entityId MOVEMENT
                 (MovementC (movement\<lparr>velocity :=
                    \<lparr>X = X (velocity movement) + X force,
                     Y = Y (velocity movement) + Y force,
                     Z = Z (velocity movement) + Z force\<rparr>\<rparr>)) s))"

definition setVelocity ::
  "entity_id \<Rightarrow> vec3 \<Rightarrow> component entity_manager \<Rightarrow> error + component entity_manager" where
  "setVelocity entityId velocity0 s =
     (case getMovement s entityId of
        Inl e \<Rightarrow> Inl e
      | Inr None \<Rightarrow> Inr s
      | Inr (Some movement) \<Rightarrow>
          Inr (writeComponent entityId MOVEMENT
                 (MovementC (movement\<lparr>velocity :=
                    \<lparr>X = X velocity0, Y = Y velocity0, Z = Z velocity0\<rparr>\<rparr>)) s))"

text \<open>
  \<^verbatim>\<open>moveTowards\<close> returns \<^verbatim>\<open>undefined\<close> (here \<open>None\<close>) when a component is missing,
  and otherwise a boolean.
\<close>

definition moveTowards ::
  "entity_id \<Rightarrow> vec3 \<Rightarrow> real \<Rightarrow> component entity_manager
     \<Rightarrow> error + (bool option \<times> component entity_manager)" where
  "moveTowards entityId targetPosition0 deltaTime s =
     (case getTransform s entityId of
        Inl e \<Rightarrow> Inl e
      | Inr transform0 \<Rightarrow>
     (case getMovement s entityId of
        Inl e \<Rightarrow> Inl e
      | Inr movement0 \<Rightarrow>
     (case (transform0, movement0) of
        (None, _) \<Rightarrow> Inr (None, s)
      | (_, None) \<Rightarrow> Inr (None, s)
      | (Some transform, Some movement) \<Rightarrow>
          (let dx = X targetPosition0 - X (position transform);
               dz = Z targetPosition0 - Z (position transform);
               distance = sqrt (dx * dx + dz * dz)
           in if distance > 0.1
              then (let directionX = dx / distance;
                        directionZ = dz / distance;
                        force = \<lparr>X = directionX * speed movement, Y = 0, Z = directionZ * speed movement\<rparr>
                    in case applyForce entityId force s of
                         Inl e \<Rightarrow> Inl e
                       | Inr s1 \<Rightarrow> Inr (Some False, s1))
              else Inr (Some True, s)))))"

section \<open>The AI system (engine/src/systems/ai-system.js)\<close>

text \<open>
  What one call of \<^verbatim>\<open>updateEntityAI\<close> reads from outside the store: the clock
  (\<^verbatim>\<open>Date.now()\<close> at the start of the handler and again on arrival) and the three
  draws of \<^verbatim>\<open>Math.random()\<close> (the wander angle, the wander distance, the idle time).
\<close>

record env =
  currentTime :: real
  arrivalTime :: real
  randomAngle :: real
  randomDistance :: real
  randomInterval :: real

definition chooseNewWanderTarget :: "env \<Rightarrow> ai \<Rightarrow> transform \<Rightarrow> ai" where
  "chooseNewWanderTarget env ai transform =
     (let angle = randomAngle env * pi * 2;
          distance = randomDistance env * wanderRadius ai;
          target = \<lparr>X = X (position transform) + cos angle * distance,
                    Y = Y (position transform),
                    Z = Z (position transform) + sin angle * distance\<rparr>;
          maxBounds = 25;
          target = target\<lparr>X := max (- maxBounds) (min maxBounds (X target))\<rparr>;
          target = target\<lparr>Z := max (- maxBounds) (min maxBounds (Z target))\<rparr>
      in ai\<lparr>targetPosition := Some target\<rparr>)"

definition handleWanderBehavior ::
  "env \<Rightarrow> entity_id \<Rightarrow> ai \<Rightarrow> transform \<Rightarrow> real \<Rightarrow> component entity_manager
     \<Rightarrow> error + component entity_manager" where
  "handleWanderBehavior env entityId ai transform deltaTime s =
     (let ai = (if currentTime env - lastDirectionChange ai > directionChangeInterval ai
                then (chooseNewWanderTarget env ai transform)
                       \<lparr>lastDirectionChange := currentTime env, state := ''moving''\<rparr>
                else ai)
      in case targetPosition ai of
           None \<Rightarrow> Inr (writeComponent entityId AI (AIC ai) s)
         | Some target \<Rightarrow>
             if state ai = ''moving''
             then (case moveTowards entityId target deltaTime s of
                     Inl e \<Rightarrow> Inl e
                   | Inr (atDestination, s1) \<Rightarrow>
                       Inr (writeComponent entityId AI
                              (AIC (if atDestination = Some True
                                    then ai\<lparr>state := ''idle'', targetPosition := None,
                                            directionChangeInterval := 1000 + randomInterval env * 3000,
                                            lastDirectionChange := arrivalTime env\<rparr>
                                    else ai)) s1))
             else Inr (writeComponent entityId AI (AIC ai) s))"

definition handleSeekBehavior ::
  "entity_id \<Rightarrow> ai \<Rightarrow> transform \<Rightarrow> real \<Rightarrow> component entity_manager
     \<Rightarrow> error + component entity_manager" where
  "handleSeekBehavior entityId ai transform deltaTime s =
     (case targetPosition ai of
        Some target \<Rightarrow>
          (case moveTowards entityId target deltaTime s of
             Inl e \<Rightarrow> Inl e
           | Inr (atDestination, s1) \<Rightarrow>
               Inr (writeComponent entityId AI
                      (AIC (if atDestination = Some True
                            then ai\<lparr>behavior := ''wander'', targetPosition := None\<rparr>
                            else ai)) s1))
      | None \<Rightarrow> Inr (writeComponent entityId AI (AIC (ai\<lparr>behavior := ''wander''\<rparr>)) s))"

definition handleIdleBehavior ::
  "env \<Rightarrow> entity_id \<Rightarrow> ai \<Rightarrow> transform \<Rightarrow> real \<Rightarrow> component entity_manager
     \<Rightarrow> error + component entity_manager" where
  "handleIdleBehavior env entityId ai transform deltaTime s =
     (if currentTime env - lastDirectionChange ai > directionChangeInterval ai
      then Inr (writeComponent entityId AI (AIC (ai\<lparr>behavior := ''wander''\<rparr>)) s)
      else Inr s)"

definition updateEntityAI ::
  "env \<Rightarrow> entity_id \<Rightarrow> real \<Rightarrow> component entity_manager \<Rightarrow> error + component entity_manager" where
  "updateEntityAI env entityId deltaTime s =
     (case getAI s entityId of
        Inl e \<Rightarrow> Inl e
      | Inr ai0 \<Rightarrow>
     (case getTransform s entityId of
        Inl e \<Rightarrow> Inl e
      | Inr transform0 \<Rightarrow>
     (case (ai0, transform0) of
        (None, _) \<Rightarrow> Inr s
      | (_, None) \<Rightarrow> Inr s
      | (Some ai, Some transform) \<Rightarrow>
          if behavior ai = ''wander'' then handleWanderBehavior env entityId ai transform deltaTime s
          else if behavior ai = ''seek'' then handleSeekBehavior entityId ai transform deltaTime s
          else if behavior ai = ''idle'' then handleIdleBehavior env entityId ai transform deltaTime s
          else Inr s)))"

definition setTarget ::
  "entity_id \<Rightarrow> vec3 option \<Rightarrow> component entity_manager \<Rightarrow> error + component entity_manager" where
  "setTarget entityId targetPosition0 s =
     (case getAI s entityId of
        Inl e \<Rightarrow> Inl e
      | Inr None \<Rightarrow> Inr s
      | Inr (Some ai) \<Rightarrow>
          Inr (writeComponent entityId AI
                 (AIC (ai\<lparr>targetPosition := targetPosition0, behavior := ''seek'', state := ''moving''\<rparr>)) s))"

definition setBehavior ::
  "entity_id \<Rightarrow> string \<Rightarrow> real \<Rightarrow> component entity_manager \<Rightarrow> error + component entity_manager" where
  "setBehavior entityId behavior0 now s =
     (case getAI s entityId of
        Inl e \<Rightarrow> Inl e
      | Inr None \<Rightarrow> Inr s
      | Inr (Some ai) \<Rightarrow>
          Inr (writeComponent entityId AI
                 (AIC (ai\<lparr>behavior := behavior0, state := ''idle'', lastDirectionChange := now\<rparr>)) s))"

text \<open>
  \<^verbatim>\<open>getEntitiesInRange\<close>: the scan, in the order of the query's result, pushes one
  triple (entity id, distance, position) for each entity in range.
\<close>

fun scanInRange ::
  "vec3 \<Rightarrow> real \<Rightarrow> component entity_manager \<Rightarrow> entity_id list
     \<Rightarrow> error + (entity_id \<times> real \<times> vec3) list" where
  "scanInRange position0 range0 s [] = Inr []"
| "scanInRange position0 range0 s (entityId # rest) =
     (case getTransform s entityId of
        Inl e \<Rightarrow> Inl e
      | Inr None \<Rightarrow> scanInRange position0 range0 s rest
      | Inr (Some transform) \<Rightarrow>
          (let dx = X (position transform) - X position0;
               dz = Z (position transform) - Z position0;
               distance = sqrt (dx * dx + dz * dz)
           in case scanInRange position0 range0 s rest of
                Inl e \<Rightarrow> Inl e
              | Inr entitiesInRange \<Rightarrow>
                  Inr (if distance \<le> range0
                       then (entityId, distance, position transform) # entitiesInRange
                       else entitiesInRange)))"

text \<open>
  \<^verbatim>\<open>Array.prototype.sort\<close> with the comparator \<^verbatim>\<open>a.distance - b.distance\<close>. The language
  standard requires the sort to be stable; insertion by key, \<^const>\<open>sort_key\<close>, is such
  a sort.
\<close>

definition getEntitiesInRange ::
  "vec3 \<Rightarrow> real \<Rightarrow> component entity_manager \<Rightarrow> error + (entity_id \<times> real \<times> vec3) list" where
  "getEntitiesInRange position0 range0 s =
     (case scanInRange position0 range0 s (getEntitiesWithComponents [TRANSFORM] s) of
        Inl e \<Rightarrow> Inl e
      | Inr entitiesInRange \<Rightarrow> Inr (sort_key (\<lambda>(entityId, distance, pos). distance) entitiesInRange))"

subsection \<open>Notions of the specification\<close>

text \<open>The planar (XZ) Euclidean distance between two points.\<close>

definition planarDistance :: "vec3 \<Rightarrow> vec3 \<Rightarrow> real" where
  "planarDistance p q = sqrt ((X q - X p)\<^sup>2 + (Z q - Z p)\<^sup>2)"

text \<open>
  The two properties of an AI component: a moving entity has a target, and a target is
  held only while the entity is pursuing it, which it does in seek behaviour, and in
  wander behaviour while its state is moving.
\<close>

definition movingHasTarget :: "ai \<Rightarrow> bool" where
  "movingHasTarget a = (state a = ''moving'' \<longrightarrow> targetPosition a \<noteq> None)"

definition pursuing :: "ai \<Rightarrow> bool" where
  "pursuing a = (behavior a = ''seek'' \<or> (behavior a = ''wander'' \<and> state a = ''moving''))"

definition targetOnlyWhilePursuing :: "ai \<Rightarrow> bool" where
  "targetOnlyWhilePursuing a = (targetPosition a \<noteq> None \<longrightarrow> pursuing a)"

section \<open>Example managers\<close>

text \<open>
  The render system implements all four methods; the movement and AI systems only
  \<^verbatim>\<open>update\<close>. \<open>Observer\<close> stands for a second system that listens to the three
  lifecycle events.
\<close>

definition RenderSystem :: system where
  "RenderSystem = \<lparr>sys_name = ''RenderSystem'', has_update = True, has_onComponentAdded = True,
                    has_onComponentRemoved = True, has_onEntityDestroyed = True\<rparr>"

definition MovementSystem :: system where
  "MovementSystem = \<lparr>sys_name = ''MovementSystem'', has_update = True, has_onComponentAdded = False,
                      has_onComponentRemoved = False, has_onEntityDestroyed = False\<rparr>"

definition AISystem :: system where
  "AISystem = \<lparr>sys_name = ''AISystem'', has_update = True, has_onComponentAdded = False,
                has_onComponentRemoved = False, has_onEntityDestroyed = False\<rparr>"

definition Observer :: system where
  "Observer = \<lparr>sys_name = ''Observer'', has_update = False, has_onComponentAdded = True,
                has_onComponentRemoved = True, has_onEntityDestroyed = True\<rparr>"

text \<open>Two entities, created with the ids 5 and 2 in this order; payloads are numbers.\<close>

definition demo :: "nat entity_manager" where
  "demo = \<lparr>entities = [(5, [(''health'', 100)]), (2, [])], nextEntityId = 1,
           componentTypes = [''health''], systems = [RenderSystem, MovementSystem, Observer]\<rparr>"

definition ordered :: "nat entity_manager" where
  "ordered = snd (createEntity (Some 2) (snd (createEntity (Some 5) EntityManager)))"

definition populated :: "nat entity_manager" where
  "populated = snd (addComponent 1 ''health'' 100 (snd (createEntity None EntityManager)))"

text \<open>
  A manager whose only entity was created with the supplied id 1, so that the allocator
  still stands at 1, and holds a health component.
\<close>

definition supplied :: "nat entity_manager" where
  "supplied = snd (addComponent 1 ''health'' 100 (snd (createEntity (Some 1) EntityManager)))"

text \<open>
  A world of four entities. Entity 1 stands at the origin and carries all three
  components the systems work on; the others carry a transform only, at the planar
  distances 5, 5 and 6 from the origin.
\<close>

definition origin :: vec3 where
  "origin = \<lparr>X = 0, Y = 0, Z = 0\<rparr>"

definition world :: "component entity_manager" where
  "world =
     \<lparr>entities =
        [(1, [(TRANSFORM, TransformC (createTransformComponent 0 0 0 origin)),
              (MOVEMENT, MovementC (createMovementComponent 2 1.5)),
              (AI, AIC (createAIComponent ''wander'' None))]),
         (2, [(TRANSFORM, TransformC (createTransformComponent 3 0 4 origin))]),
         (3, [(TRANSFORM, TransformC (createTransformComponent 0 0 5 origin))]),
         (4, [(TRANSFORM, TransformC (createTransformComponent 6 0 0 origin))])],
      nextEntityId = 5,
      componentTypes = [TRANSFORM, MOVEMENT, AI],
      systems = [RenderSystem, MovementSystem, AISystem]\<rparr>"

text \<open>The world after \<^verbatim>\<open>applyForce(1, {x: 2, y: 0, z: 0})\<close>.\<close>

definition pushed :: "component entity_manager" where
  "pushed = writeComponent 1 MOVEMENT
              (MovementC ((createMovementComponent 2 1.5)\<lparr>velocity := \<lparr>X = 2, Y = 0, Z = 0\<rparr>\<rparr>)) world"

text \<open>
  The AI component of entity 1 after \<^verbatim>\<open>setTarget(1, origin)\<close>, after the update that
  follows it, and after \<^verbatim>\<open>setBehavior(1, "idle")\<close> in its place.
\<close>

definition seekingAI :: ai where
  "seekingAI = (createAIComponent ''wander'' None)
                 \<lparr>targetPosition := Some origin, behavior := ''seek'', state := ''moving''\<rparr>"

definition seeking :: "component entity_manager" where
  "seeking = writeComponent 1 AI (AIC seekingAI) world"

definition arrivedAI :: ai where
  "arrivedAI = seekingAI\<lparr>behavior := ''wander'', targetPosition := None\<rparr>"

definition idledAI :: ai where
  "idledAI = seekingAI\<lparr>behavior := ''idle'', state := ''idle'', lastDirectionChange := 0\<rparr>"

definition env0 :: env where
  "env0 = \<lparr>currentTime = 0, arrivalTime = 0, randomAngle = 0, randomDistance = 0, randomInterval = 0\<rparr>"

text \<open>
  A clock and draws at which an entity in wander behaviour, standing at the origin with the
  default timer, picks the target \<open>(5, 0, 0)\<close>; and its AI component after that update.
\<close>

definition env1 :: env where
  "env1 = \<lparr>currentTime = 5000, arrivalTime = 5000, randomAngle = 0, randomDistance = 1 / 2,
           randomInterval = 0\<rparr>"

definition wanderingAI :: ai where
  "wanderingAI = (createAIComponent ''wander'' None)
                   \<lparr>targetPosition := Some \<lparr>X = 5, Y = 0, Z = 0\<rparr>, lastDirectionChange := 5000,
                     state := ''moving''\<rparr>"

section \<open>Properties of the entity manager\<close>

lemma keys_update: "map fst (AList.update k v al) = (if k \<in> set (map fst al) then map fst al else map fst al @ [k])"
  by (induction al) auto

lemma map_of_Some_key: "map_of al k = Some v \<Longrightarrow> k \<in> fst ` set al"
  by (metis domI dom_map_of_conv_image_fst)

lemma reachable_distinct: "reachable s \<Longrightarrow> distinct (map fst (entities s))"
proof (induction rule: reachable.induct)
  case reach_new
  show ?case by (simp add: EntityManager_def)
next
  case (reach_create s eid)
  then show ?case
    by (auto simp: createEntity_def distinct_update split: option.splits)
next
  case (reach_destroy s entityId)
  then show ?case by (simp add: destroyEntity_def distinct_delete)
next
  case (reach_add s entityId componentType componentData)
  then show ?case by (auto simp: addComponent_def distinct_update split: option.splits)
next
  case (reach_remove s entityId componentType)
  then show ?case by (auto simp: removeComponent_def distinct_update split: option.splits)
next
  case (reach_write s entityId componentType componentData)
  then show ?case by (auto simp: writeComponent_def distinct_update split: option.splits)
next
  case (reach_addSystem s sys)
  then show ?case by (simp add: addSystem_def)
next
  case (reach_removeSystem s sys)
  then show ?case by (simp add: removeSystem_def)
qed

lemma reachable_allocator: "reachable s \<Longrightarrow> 1 \<le> nextEntityId s \<and> 0 \<notin> fst ` set (entities s)"
proof (induction rule: reachable.induct)
  case reach_new
  show ?case by (simp add: EntityManager_def)
next
  case (reach_create s eid)
  then show ?case
    by (auto simp: createEntity_def dom_update split: option.splits)
next
  case (reach_destroy s entityId)
  then show ?case using dom_delete_subset[of entityId "entities s"] by (auto simp: destroyEntity_def)
next
  case (reach_add s entityId componentType componentData)
  then show ?case by (auto simp: addComponent_def dom_update dest: map_of_Some_key split: option.splits)
next
  case (reach_remove s entityId componentType)
  then show ?case by (auto simp: removeComponent_def dom_update dest: map_of_Some_key split: option.splits)
next
  case (reach_write s entityId componentType componentData)
  then show ?case by (auto simp: writeComponent_def dom_update dest: map_of_Some_key split: option.splits)
next
  case (reach_addSystem s sys)
  then show ?case by (simp add: addSystem_def)
next
  case (reach_removeSystem s sys)
  then show ?case by (simp add: removeSystem_def)
qed

lemmas demo_defs = demo_def RenderSystem_def MovementSystem_def Observer_def

text \<open>
  Claim C4. \<^verbatim>\<open>destroyEntity(id)\<close> removes the component set of \<open>id\<close> and no other; on an
  absent id it leaves the manager as it was, and a second call changes nothing more. In
  every case, also when the id did not exist, it calls \<^verbatim>\<open>onEntityDestroyed(id)\<close> on each
  registered system that has the method, in registration order.
\<close>

theorem destroyEntity_spec:
  "map_of (entities (fst (destroyEntity i s))) i = None
   \<and> (\<forall>j. j \<noteq> i \<longrightarrow> map_of (entities (fst (destroyEntity i s))) j = map_of (entities s) j)
   \<and> (map_of (entities s) i = None \<longrightarrow> fst (destroyEntity i s) = s)
   \<and> fst (destroyEntity i (fst (destroyEntity i s))) = fst (destroyEntity i s)
   \<and> snd (destroyEntity i s) =
        map (\<lambda>sys. OnEntityDestroyed (sys_name sys) i) (filter has_onEntityDestroyed (systems s))
   \<and> snd (destroyEntity i (fst (destroyEntity i s))) = snd (destroyEntity i s)"
  by (auto simp: destroyEntity_def delete_conv' delete_idem map_of_eq_None_iff)

theorem destroyEntity_spec_witness:
  "map_of (entities demo) 7 = None
   \<and> fst (destroyEntity 7 demo) = demo
   \<and> snd (destroyEntity 7 demo) =
        [OnEntityDestroyed ''RenderSystem'' 7, OnEntityDestroyed ''Observer'' 7]
   \<and> map_of (entities (fst (destroyEntity 5 demo))) 2 = map_of (entities demo) 2"
  using destroyEntity_spec [of 7 demo] destroyEntity_spec [of 5 demo]
  by (simp add: demo_defs)

lemma getComponent_add:
  "map_of (entities s) i = Some e \<Longrightarrow>
   getComponent (snd (addComponent i v d s)) j w =
     (if j = i \<and> w = v then Some d else getComponent s j w)"
  by (auto simp: addComponent_def getComponent_def update_conv')

lemma getComponent_remove:
  "getComponent (fst (removeComponent i v s)) j w =
     (if j = i \<and> w = v then None else getComponent s j w)"
  by (auto simp: removeComponent_def getComponent_def update_conv' delete_conv' split: option.splits)

lemma keys_update_present:
  "map_of al k = Some v \<Longrightarrow> map fst (AList.update k w al) = map fst al"
  by (auto simp: keys_update dest: map_of_Some_key)

text \<open>
  Claim C5. \<^verbatim>\<open>addComponent\<close> on an id without a component set fails with
  \<open>EntityNotFound\<close>, leaves the manager unchanged and makes no call. Otherwise the payload
  is stored under the component type, replacing what was there, every other component and
  the order of the entities stay as they were, and the calls made are exactly one
  \<^verbatim>\<open>onComponentAdded\<close> per registered system that has the method, in registration order,
  and no \<^verbatim>\<open>onComponentRemoved\<close>.
\<close>

theorem addComponent_spec:
  "(map_of (entities s) i = None \<longrightarrow> addComponent i v d s = (Inl EntityNotFound, s))
   \<and> (map_of (entities s) i \<noteq> None \<longrightarrow>
        fst (addComponent i v d s) =
          Inr (map (\<lambda>sys. OnComponentAdded (sys_name sys) i v d)
                   (filter has_onComponentAdded (systems s)))
      \<and> getComponent (snd (addComponent i v d s)) i v = Some d
      \<and> (\<forall>j w. (j, w) \<noteq> (i, v) \<longrightarrow>
            getComponent (snd (addComponent i v d s)) j w = getComponent s j w)
      \<and> getAllEntities (snd (addComponent i v d s)) = getAllEntities s
      \<and> systems (snd (addComponent i v d s)) = systems s)"
proof (cases "map_of (entities s) i")
  case None
  then show ?thesis by (simp add: addComponent_def)
next
  case (Some e)
  have "getAllEntities (snd (addComponent i v d s)) = getAllEntities s"
    using Some by (simp add: addComponent_def getAllEntities_def keys_update_present)
  moreover have "fst (addComponent i v d s) =
          Inr (map (\<lambda>sys. OnComponentAdded (sys_name sys) i v d)
                   (filter has_onComponentAdded (systems s)))"
    and "systems (snd (addComponent i v d s)) = systems s"
    using Some by (simp_all add: addComponent_def)
  ultimately show ?thesis
    using Some by (auto simp: getComponent_add [OF Some])
qed

theorem addComponent_spec_witness:
  "addComponent 7 ''health'' 3 demo = (Inl EntityNotFound, demo)
   \<and> getComponent demo 5 ''health'' = Some 100
   \<and> fst (addComponent 5 ''health'' 3 demo) =
       Inr [OnComponentAdded ''RenderSystem'' 5 ''health'' 3, OnComponentAdded ''Observer'' 5 ''health'' 3]
   \<and> getComponent (snd (addComponent 5 ''health'' 3 demo)) 5 ''health'' = Some 3"
  using addComponent_spec [of demo 7 "''health''" 3] addComponent_spec [of demo 5 "''health''" 3]
  by (simp add: demo_defs getComponent_def)

text \<open>
  Claim C1 as stated fails: entity 2 of \<open>demo\<close> exists and holds no mesh component, yet
  \<^verbatim>\<open>removeComponent(2, "mesh")\<close> calls \<^verbatim>\<open>onComponentRemoved\<close> on both listening systems.
\<close>

theorem removeComponent_counterexample:
  "\<not> hasComponent demo 2 ''mesh''
   \<and> map_of (entities demo) 2 \<noteq> None
   \<and> snd (removeComponent 2 ''mesh'' demo) =
       [OnComponentRemoved ''RenderSystem'' 2 ''mesh'', OnComponentRemoved ''Observer'' 2 ''mesh'']"
  by (simp add: demo_defs hasComponent_def removeComponent_def)

text \<open>
  Claim C1, amended. \<^verbatim>\<open>removeComponent\<close> on an id without a component set changes nothing
  and makes no call. On an existing entity it deletes the component of that type if there
  is one (the store is unchanged if there is none), leaves every other component alone,
  and calls \<^verbatim>\<open>onComponentRemoved(id, type)\<close> on each registered system that has the method,
  in registration order, whether or not a component was deleted.
\<close>

theorem removeComponent_spec:
  "(map_of (entities s) i = None \<longrightarrow> removeComponent i v s = (s, []))
   \<and> (map_of (entities s) i \<noteq> None \<longrightarrow>
        snd (removeComponent i v s) =
          map (\<lambda>sys. OnComponentRemoved (sys_name sys) i v)
              (filter has_onComponentRemoved (systems s))
      \<and> getComponent (fst (removeComponent i v s)) i v = None
      \<and> (\<forall>j w. (j, w) \<noteq> (i, v) \<longrightarrow>
            getComponent (fst (removeComponent i v s)) j w = getComponent s j w)
      \<and> getAllEntities (fst (removeComponent i v s)) = getAllEntities s
      \<and> (\<not> hasComponent s i v \<longrightarrow> fst (removeComponent i v s) = s))"
proof (cases "map_of (entities s) i")
  case None
  then show ?thesis by (simp add: removeComponent_def)
next
  case (Some e)
  have "getAllEntities (fst (removeComponent i v s)) = getAllEntities s"
    using Some by (simp add: removeComponent_def getAllEntities_def keys_update_present)
  moreover have "snd (removeComponent i v s) =
          map (\<lambda>sys. OnComponentRemoved (sys_name sys) i v)
              (filter has_onComponentRemoved (systems s))"
    using Some by (simp add: removeComponent_def)
  moreover have "\<not> hasComponent s i v \<Longrightarrow> fst (removeComponent i v s) = s"
    using Some by (simp add: removeComponent_def hasComponent_def map_of_eq_None_iff update_triv)
  ultimately show ?thesis
    using Some by (auto simp: getComponent_remove)
qed

theorem removeComponent_spec_witness:
  "removeComponent 7 ''health'' demo = (demo, [])
   \<and> snd (removeComponent 5 ''health'' demo) =
       [OnComponentRemoved ''RenderSystem'' 5 ''health'', OnComponentRemoved ''Observer'' 5 ''health'']
   \<and> getComponent demo 5 ''health'' = Some 100
   \<and> getComponent (fst (removeComponent 5 ''health'' demo)) 5 ''health'' = None
   \<and> fst (removeComponent 2 ''health'' demo) = demo"
  using removeComponent_spec [of demo 7 "''health''"] removeComponent_spec [of demo 5 "''health''"]
    removeComponent_spec [of demo 2 "''health''"]
  by (simp add: demo_defs getComponent_def hasComponent_def)

lemma hasComponent_getComponent: "hasComponent s i t = (getComponent s i t \<noteq> None)"
  by (simp add: hasComponent_def getComponent_def split: option.splits)

lemma filter_keys:
  "distinct (map fst al) \<Longrightarrow>
   map fst (filter (\<lambda>(k, v). P v) al) = filter (\<lambda>k. \<exists>v. map_of al k = Some v \<and> P v) (map fst al)"
proof (induction al)
  case Nil
  show ?case by simp
next
  case (Cons p al)
  obtain k v where p: "p = (k, v)" by (cases p)
  have notin: "k \<notin> fst ` set al" and d: "distinct (map fst al)"
    using Cons.prems by (auto simp: p)
  have "filter (\<lambda>k'. \<exists>v'. map_of (p # al) k' = Some v' \<and> P v') (map fst al)
      = filter (\<lambda>k'. \<exists>v'. map_of al k' = Some v' \<and> P v') (map fst al)"
    using notin by (intro filter_cong) (auto simp: p)
  then show ?case using Cons.IH [OF d] by (simp add: p)
qed

lemma query_as_filter:
  assumes "distinct (map fst (entities s))"
  shows "getEntitiesWithComponents types s =
           filter (\<lambda>i. i \<in> set (getAllEntities s) \<and> (\<forall>t\<in>set types. hasComponent s i t)) (getAllEntities s)"
proof -
  have "getEntitiesWithComponents types s =
          map fst (filter (\<lambda>(k, v). list_all (\<lambda>t. map_of v t \<noteq> None) types) (entities s))"
    by (simp add: getEntitiesWithComponents_def)
  also have "\<dots> = filter (\<lambda>k. \<exists>v. map_of (entities s) k = Some v \<and> list_all (\<lambda>t. map_of v t \<noteq> None) types)
                      (map fst (entities s))"
    by (rule filter_keys [OF assms])
  also have "\<dots> = filter (\<lambda>i. i \<in> set (getAllEntities s) \<and> (\<forall>t\<in>set types. hasComponent s i t)) (getAllEntities s)"
    unfolding getAllEntities_def
    by (intro filter_cong refl)
       (auto simp: hasComponent_def list_all_iff map_of_eq_None_iff map_of_is_SomeI [OF assms]
             split: option.splits)
  finally show ?thesis .
qed

text \<open>
  Claim C8. In every reachable manager the query returns the live entities that have every
  listed component type, each once, in the iteration order of the store, which is the
  order of insertion and not the order of the ids: creating an id that is not live appends
  it, creating a live id keeps its place. The result follows the current state: after
  \<^verbatim>\<open>addComponent\<close> supplies the missing type the entity is in the result, and after
  \<^verbatim>\<open>removeComponent\<close> of a listed type it is not.
\<close>

theorem query_spec:
  assumes "reachable s"
  shows "getEntitiesWithComponents types s =
           filter (\<lambda>i. \<forall>t\<in>set types. hasComponent s i t) (getAllEntities s)
       \<and> set (getEntitiesWithComponents types s) =
           {i. i \<in> set (getAllEntities s) \<and> (\<forall>t\<in>set types. hasComponent s i t)}
       \<and> distinct (getEntitiesWithComponents types s)
       \<and> getAllEntities (snd (createEntity eid s)) =
           (if fst (createEntity eid s) \<in> set (getAllEntities s) then getAllEntities s
            else getAllEntities s @ [fst (createEntity eid s)])
       \<and> (i \<in> set (getAllEntities s) \<and> (\<forall>t\<in>set types. t = v \<or> hasComponent s i t) \<longrightarrow>
            i \<in> set (getEntitiesWithComponents types (snd (addComponent i v d s))))
       \<and> (v \<in> set types \<longrightarrow>
            i \<notin> set (getEntitiesWithComponents types (fst (removeComponent i v s))))"
proof -
  have d: "distinct (map fst (entities s))" by (rule reachable_distinct [OF assms])
  have q: "set (getEntitiesWithComponents types s') =
               {i. i \<in> set (getAllEntities s') \<and> (\<forall>t\<in>set types. hasComponent s' i t)}"
    if "reachable s'" for s' :: "'a entity_manager"
    by (auto simp: query_as_filter [OF reachable_distinct [OF that]])
  have 1: "getEntitiesWithComponents types s =
           filter (\<lambda>i. \<forall>t\<in>set types. hasComponent s i t) (getAllEntities s)"
    unfolding query_as_filter [OF d] by (intro filter_cong) auto
  have 2: "distinct (getEntitiesWithComponents types s)"
    unfolding 1 using d by (simp add: getAllEntities_def)
  have 3: "getAllEntities (snd (createEntity eid s)) =
           (if fst (createEntity eid s) \<in> set (getAllEntities s) then getAllEntities s
            else getAllEntities s @ [fst (createEntity eid s)])"
    by (simp add: createEntity_def getAllEntities_def keys_update split: option.splits)
  have 4: "i \<in> set (getEntitiesWithComponents types (snd (addComponent i v d s)))"
    if live: "i \<in> set (getAllEntities s)" and has: "\<forall>t\<in>set types. t = v \<or> hasComponent s i t"
  proof -
    obtain e where e: "map_of (entities s) i = Some e"
      using live by (auto simp: getAllEntities_def dest: weak_map_of_SomeI)
    have "getAllEntities (snd (addComponent i v d s)) = getAllEntities s"
      using e by (simp add: addComponent_def getAllEntities_def keys_update_present)
    then show ?thesis
      using live has by (auto simp: q [OF reach_add [OF assms]] hasComponent_getComponent getComponent_add [OF e])
  qed
  have 5: "i \<notin> set (getEntitiesWithComponents types (fst (removeComponent i v s)))" if "v \<in> set types"
    using that by (auto simp: q [OF reach_remove [OF assms]] hasComponent_getComponent getComponent_remove)
  show ?thesis using 1 2 3 4 5 q [OF assms] by blast
qed

theorem query_spec_witness:
  "reachable ordered
   \<and> getEntitiesWithComponents [] ordered = [5, 2]
   \<and> getEntitiesWithComponents [''health''] ordered = []
   \<and> getEntitiesWithComponents [''health''] (snd (addComponent 2 ''health'' 7 ordered)) = [2]
   \<and> getEntitiesWithComponents [''health'']
        (fst (removeComponent 2 ''health'' (snd (addComponent 2 ''health'' 7 ordered)))) = []"
proof -
  have r: "reachable ordered"
    unfolding ordered_def by (intro reach_create reach_new)
  show ?thesis
    using r query_spec [OF r, where types = "[''health'']" and i = 2 and v = "''health''" and d = 7
                      and eid = None]
    by (simp add: ordered_def createEntity_def EntityManager_def getEntitiesWithComponents_def
          addComponent_def removeComponent_def)
qed

lemma run_reachable: "reachable s \<Longrightarrow> reachable (fst (run ops s))"
proof (induction ops arbitrary: s)
  case Nil
  then show ?case by simp
next
  case (Cons op ops)
  show ?case
  proof (cases op)
    case (Create eid)
    obtain i s1 where c: "createEntity eid s = (i, s1)" by (cases "createEntity eid s")
    have "reachable s1" using reach_create [OF Cons.prems, of eid] by (simp add: c)
    from Cons.IH [OF this] show ?thesis
      by (cases "run ops s1") (simp add: Create c)
  next
    case (Destroy i)
    have "reachable (fst (destroyEntity i s))" by (rule reach_destroy [OF Cons.prems])
    from Cons.IH [OF this] show ?thesis by (simp add: Destroy)
  qed
qed

lemma createEntity_allocating:
  "allocating (Create eid) \<Longrightarrow>
   createEntity eid s =
     (nextEntityId s, s\<lparr>nextEntityId := nextEntityId s + 1,
                         entities := AList.update (nextEntityId s) [] (entities s)\<rparr>)"
  by (cases eid) (auto simp: createEntity_def)

lemma run_allocating:
  assumes "\<forall>op\<in>set ops. allocating op"
    and "\<forall>k\<in>fst ` set (entities s). k < nextEntityId s"
    and "run ops s = (s', ids)"
  shows "(\<forall>k\<in>set ids. nextEntityId s \<le> k \<and> k < nextEntityId s')
       \<and> sorted_wrt (<) ids
       \<and> (\<forall>k\<in>fst ` set (entities s'). k < nextEntityId s')
       \<and> nextEntityId s \<le> nextEntityId s'
       \<and> fst ` set (entities s') \<subseteq> fst ` set (entities s) \<union> set ids"
  using assms
proof (induction ops arbitrary: s s' ids)
  case Nil
  then show ?case by auto
next
  case (Cons op ops)
  show ?case
  proof (cases op)
    case (Create eid)
    define s1 where "s1 = s\<lparr>nextEntityId := nextEntityId s + 1,
                         entities := AList.update (nextEntityId s) [] (entities s)\<rparr>"
    have al: "allocating (Create eid)" using Cons.prems(1) Create by simp
    have c: "createEntity eid s = (nextEntityId s, s1)"
      unfolding s1_def by (rule createEntity_allocating [OF al])
    obtain ids1 where r: "run ops s1 = (s', ids1)" and ids: "ids = nextEntityId s # ids1"
      using Cons.prems(3) by (auto simp: Create c split: prod.splits)
    have inv1: "\<forall>k\<in>fst ` set (entities s1). k < nextEntityId s1"
      using Cons.prems(2) by (auto simp: s1_def dom_update)
    have all: "\<forall>op\<in>set ops. allocating op" using Cons.prems(1) by simp
    note IH = Cons.IH [OF all inv1 r]
    have n1: "nextEntityId s1 = nextEntityId s + 1" by (simp add: s1_def)
    have k1: "fst ` set (entities s1) = {nextEntityId s} \<union> fst ` set (entities s)"
      by (simp add: s1_def dom_update)
    show ?thesis
      using IH unfolding ids n1 k1 by (auto simp: less_imp_le)
  next
    case (Destroy i)
    define s1 where "s1 = fst (destroyEntity i s)"
    have r: "run ops s1 = (s', ids)" using Cons.prems(3) by (simp add: Destroy s1_def)
    have sub: "fst ` set (entities s1) \<subseteq> fst ` set (entities s)"
      by (simp add: s1_def destroyEntity_def dom_delete_subset)
    have n1: "nextEntityId s1 = nextEntityId s" by (simp add: s1_def destroyEntity_def)
    have inv1: "\<forall>k\<in>fst ` set (entities s1). k < nextEntityId s1"
      using Cons.prems(2) sub unfolding n1 by blast
    have all: "\<forall>op\<in>set ops. allocating op" using Cons.prems(1) by simp
    note IH = Cons.IH [OF all inv1 r]
    show ?thesis using IH sub unfolding n1 by blast
  qed
qed

text \<open>
  Claim C2, amended. After every sequence of \<^verbatim>\<open>createEntity\<close> and \<^verbatim>\<open>destroyEntity\<close> calls
  on a new manager the live ids are pairwise distinct. If every \<^verbatim>\<open>createEntity\<close> of the
  sequence leaves the id to the allocator (no id, or 0), then all live ids were returned
  by a create, the ids returned are strictly increasing, and a further allocating create
  returns an id that is neither live nor was ever returned before, so a destroyed id is
  not taken again. A create with a supplied non-zero id returns that id and installs an
  empty component set under it, in any manager.
\<close>

theorem allocator_ids_fresh:
  assumes "\<forall>op\<in>set ops. allocating op"
    and "run ops (EntityManager :: 'a entity_manager) = (s, ids)"
    and "allocating (Create e)"
  shows "distinct (getAllEntities (fst (run ops' (EntityManager :: 'a entity_manager))))
       \<and> set (getAllEntities s) \<subseteq> set ids
       \<and> sorted_wrt (<) ids
       \<and> fst (createEntity e s) \<notin> set ids
       \<and> fst (createEntity e s) \<notin> set (getAllEntities s)
       \<and> (i \<noteq> 0 \<longrightarrow> fst (createEntity (Some i) t) = i
                    \<and> map_of (entities (snd (createEntity (Some i) t))) i = Some [])"
proof -
  have inv0: "\<forall>k\<in>fst ` set (entities (EntityManager :: 'a entity_manager)). k < nextEntityId (EntityManager :: 'a entity_manager)"
    by (simp add: EntityManager_def)
  note R = run_allocating [OF assms(1) inv0 assms(2)]
  have "reachable (fst (run ops' (EntityManager :: 'a entity_manager)))"
    by (rule run_reachable [OF reach_new])
  then have d: "distinct (getAllEntities (fst (run ops' (EntityManager :: 'a entity_manager))))"
    by (simp add: reachable_distinct getAllEntities_def)
  have sub: "set (getAllEntities s) \<subseteq> set ids"
    using R by (simp add: getAllEntities_def EntityManager_def)
  have c: "fst (createEntity e s) = nextEntityId s"
    by (simp add: createEntity_allocating [OF assms(3)])
  have "nextEntityId s \<notin> set ids" using R by auto
  moreover have "nextEntityId s \<notin> set (getAllEntities s)" using R by (auto simp: getAllEntities_def)
  moreover have "i \<noteq> 0 \<longrightarrow> fst (createEntity (Some i) t) = i
                    \<and> map_of (entities (snd (createEntity (Some i) t))) i = Some []"
    by (simp add: createEntity_def update_conv')
  ultimately show ?thesis using d sub R c by simp
qed

theorem allocator_ids_fresh_witness:
  "run [Create None, Create (Some 0), Destroy 1, Create None] (EntityManager :: nat entity_manager)
     = (\<lparr>entities = [(2, []), (3, [])], nextEntityId = 4, componentTypes = [], systems = []\<rparr>, [1, 2, 3])
   \<and> fst (createEntity None \<lparr>entities = [(2, []), (3, [])], nextEntityId = 4, componentTypes = [],
                              systems = []\<rparr> :: int \<times> nat entity_manager) = 4
   \<and> createEntity (Some 2) populated
       = (2, \<lparr>entities = [(1, [(''health'', 100)]), (2, [])], nextEntityId = 2,
              componentTypes = [''health''], systems = []\<rparr>)
   \<and> getAllEntities (fst (run [Create (Some 7), Create (Some 7), Destroy 3]
                               (EntityManager :: nat entity_manager))) = [7]"
proof -
  have a: "\<forall>op\<in>set [Create None, Create (Some 0), Destroy 1, Create None]. allocating op" by simp
  have r: "run [Create None, Create (Some 0), Destroy 1, Create None] (EntityManager :: nat entity_manager)
     = (\<lparr>entities = [(2, []), (3, [])], nextEntityId = 4, componentTypes = [], systems = []\<rparr>, [1, 2, 3])"
    by (simp add: createEntity_def destroyEntity_def EntityManager_def)
  have c: "allocating (Create None)" by simp
  show ?thesis
    using allocator_ids_fresh [OF a r c, where i = 2 and t = populated
            and ops' = "[Create (Some 7), Create (Some 7), Destroy 3]"] r
    by (simp add: createEntity_def destroyEntity_def populated_def addComponent_def EntityManager_def
          getAllEntities_def)
qed

text \<open>
  Claim C2 as stated fails: a \<^verbatim>\<open>createEntity\<close> with the supplied id 1 returns the id of
  the live entity 1, and the allocator returns 1 although a supplied 1 is live; on
  \<open>populated\<close>, whose entity 1 holds a health component, \<^verbatim>\<open>createEntity(1)\<close> returns 1
  and the component is gone.
\<close>

theorem create_supplied_id_counterexample:
  "snd (run [Create None, Create (Some 1)] (EntityManager :: nat entity_manager)) = [1, 1]
   \<and> snd (run [Create (Some 1), Create None] (EntityManager :: nat entity_manager)) = [1, 1]
   \<and> getAllEntities populated = [1]
   \<and> getComponent populated 1 ''health'' = Some 100
   \<and> fst (createEntity (Some 1) populated) = 1
   \<and> getComponent (snd (createEntity (Some 1) populated)) 1 ''health'' = None"
  by (simp add: createEntity_def populated_def addComponent_def EntityManager_def getComponent_def
        getAllEntities_def)

text \<open>
  Claim C10 as stated fails in its promise of a fresh id. In \<open>supplied\<close>, entity 1 was
  created with the supplied id 1 and holds a health component, and the allocator still
  stands at 1: \<^verbatim>\<open>createEntity(0)\<close> returns 1, the id of that live entity, creates no new
  entity, and the health component is gone.
\<close>

theorem create_zero_counterexample:
  "reachable supplied
   \<and> getAllEntities supplied = [1]
   \<and> getComponent supplied 1 ''health'' = Some 100
   \<and> fst (createEntity (Some 0) supplied) = 1
   \<and> fst (createEntity (Some 0) supplied) \<in> set (getAllEntities supplied)
   \<and> getAllEntities (snd (createEntity (Some 0) supplied)) = [1]
   \<and> getComponent (snd (createEntity (Some 0) supplied)) 1 ''health'' = None"
proof -
  have "reachable supplied"
    unfolding supplied_def by (intro reach_add reach_create reach_new)
  then show ?thesis
    by (simp add: supplied_def createEntity_def addComponent_def EntityManager_def getComponent_def
          getAllEntities_def)
qed

text \<open>
  Claim C10, amended. In every manager reachable from a new one, \<^verbatim>\<open>createEntity(0)\<close>
  behaves as \<^verbatim>\<open>createEntity()\<close>: the supplied 0 is ignored, the id returned is the
  allocator's next id, which is at least 1 and so differs from 0, the allocator advances
  by one, no entity with id 0 exists afterwards, and an empty component set is installed
  under the returned id while every other entity is left alone. The returned id is a new
  entity, appended to the store, whenever the allocator's next id is not live; that is so
  after every sequence of destroys and of creates that leave the id to the allocator, and
  then the id was never returned before either.
\<close>

theorem create_zero_amended:
  assumes "reachable s"
  shows "createEntity (Some 0) s = createEntity None s
       \<and> fst (createEntity (Some 0) s) = nextEntityId s
       \<and> 1 \<le> fst (createEntity (Some 0) s)
       \<and> fst (createEntity (Some 0) s) \<noteq> 0
       \<and> nextEntityId (snd (createEntity (Some 0) s)) = nextEntityId s + 1
       \<and> 0 \<notin> set (getAllEntities (snd (createEntity (Some 0) s)))
       \<and> map_of (entities (snd (createEntity (Some 0) s))) (nextEntityId s) = Some []
       \<and> (\<forall>j. j \<noteq> nextEntityId s \<longrightarrow>
             map_of (entities (snd (createEntity (Some 0) s))) j = map_of (entities s) j)
       \<and> (nextEntityId s \<notin> set (getAllEntities s) \<longrightarrow>
             fst (createEntity (Some 0) s) \<notin> set (getAllEntities s)
           \<and> getAllEntities (snd (createEntity (Some 0) s)) = getAllEntities s @ [nextEntityId s])
       \<and> ((\<forall>op\<in>set ops. allocating op) \<and> run ops EntityManager = (s, ids) \<longrightarrow>
             fst (createEntity (Some 0) s) \<notin> set (getAllEntities s)
           \<and> fst (createEntity (Some 0) s) \<notin> set ids)"
proof -
  have c: "createEntity (Some 0) s =
             (nextEntityId s, s\<lparr>nextEntityId := nextEntityId s + 1,
                                 entities := AList.update (nextEntityId s) [] (entities s)\<rparr>)"
    by (rule createEntity_allocating) simp
  have inv: "1 \<le> nextEntityId s" "0 \<notin> fst ` set (entities s)"
    using reachable_allocator [OF assms] by simp_all
  have 1: "createEntity (Some 0) s = createEntity None s"
    by (simp add: createEntity_def)
  have 2: "0 \<notin> set (getAllEntities (snd (createEntity (Some 0) s)))"
    using inv by (auto simp: c getAllEntities_def dom_update)
  have 3: "map_of (entities (snd (createEntity (Some 0) s))) (nextEntityId s) = Some []"
    and 4: "\<forall>j. j \<noteq> nextEntityId s \<longrightarrow>
             map_of (entities (snd (createEntity (Some 0) s))) j = map_of (entities s) j"
    by (simp_all add: c update_conv')
  have 5: "nextEntityId s \<notin> set (getAllEntities s) \<longrightarrow>
             fst (createEntity (Some 0) s) \<notin> set (getAllEntities s)
           \<and> getAllEntities (snd (createEntity (Some 0) s)) = getAllEntities s @ [nextEntityId s]"
    by (simp add: c getAllEntities_def keys_update)
  have 6: "(\<forall>op\<in>set ops. allocating op) \<and> run ops EntityManager = (s, ids) \<longrightarrow>
             fst (createEntity (Some 0) s) \<notin> set (getAllEntities s)
           \<and> fst (createEntity (Some 0) s) \<notin> set ids"
  proof (intro impI, elim conjE)
    assume a: "\<forall>op\<in>set ops. allocating op" and r: "run ops EntityManager = (s, ids)"
    have inv0: "\<forall>k\<in>fst ` set (entities (EntityManager :: 'a entity_manager)).
                  k < nextEntityId (EntityManager :: 'a entity_manager)"
      by (simp add: EntityManager_def)
    note R = run_allocating [OF a inv0 r]
    have "nextEntityId s \<notin> set ids" using R by auto
    moreover have "nextEntityId s \<notin> set (getAllEntities s)"
      using R by (auto simp: getAllEntities_def)
    ultimately show "fst (createEntity (Some 0) s) \<notin> set (getAllEntities s)
           \<and> fst (createEntity (Some 0) s) \<notin> set ids"
      by (simp add: c)
  qed
  have 7: "fst (createEntity (Some 0) s) = nextEntityId s"
    "nextEntityId (snd (createEntity (Some 0) s)) = nextEntityId s + 1"
    by (simp_all add: c)
  have 8: "1 \<le> fst (createEntity (Some 0) s)" "fst (createEntity (Some 0) s) \<noteq> 0"
    using inv(1) by (simp_all add: 7)
  from 1 2 3 4 5 6 7 8 show ?thesis by blast
qed

theorem create_zero_amended_witness:
  "reachable (fst (run [Create None, Create (Some 0), Destroy 1] (EntityManager :: nat entity_manager)))
   \<and> run [Create None, Create (Some 0), Destroy 1] (EntityManager :: nat entity_manager)
       = (\<lparr>entities = [(2, [])], nextEntityId = 3, componentTypes = [], systems = []\<rparr>, [1, 2])
   \<and> createEntity (Some 0)
        (\<lparr>entities = [(2, [])], nextEntityId = 3, componentTypes = [], systems = []\<rparr>
           :: nat entity_manager)
       = (3, \<lparr>entities = [(2, []), (3, [])], nextEntityId = 4, componentTypes = [], systems = []\<rparr>)"
proof -
  have reach: "reachable (fst (run [Create None, Create (Some 0), Destroy 1]
                                (EntityManager :: nat entity_manager)))"
    by (rule run_reachable [OF reach_new])
  have r: "run [Create None, Create (Some 0), Destroy 1] (EntityManager :: nat entity_manager)
       = (\<lparr>entities = [(2, [])], nextEntityId = 3, componentTypes = [], systems = []\<rparr>, [1, 2])"
    by (simp add: createEntity_def destroyEntity_def EntityManager_def)
  have s: "reachable (\<lparr>entities = [(2, [])], nextEntityId = 3, componentTypes = [], systems = []\<rparr>
                       :: nat entity_manager)"
    using reach unfolding r by simp
  have c: "createEntity (Some 0)
        (\<lparr>entities = [(2, [])], nextEntityId = 3, componentTypes = [], systems = []\<rparr>
           :: nat entity_manager)
       = (3, \<lparr>entities = [(2, []), (3, [])], nextEntityId = 4, componentTypes = [], systems = []\<rparr>)"
    by (simp add: createEntity_def)
  show ?thesis
    using create_zero_amended [OF s, where ops = "[Create None, Create (Some 0), Destroy 1]"
            and ids = "[1, 2]"] reach r c
    by blast
qed

section \<open>Properties of the movement system\<close>

lemma getComponent_write:
  "getComponent (writeComponent i v d s) j w =
     (if j = i \<and> w = v \<and> getComponent s i v \<noteq> None then Some d else getComponent s j w)"
  by (auto simp: writeComponent_def getComponent_def update_conv' split: option.splits)

lemma getAllEntities_write: "getAllEntities (writeComponent i v d s) = getAllEntities s"
  by (auto simp: writeComponent_def getAllEntities_def keys_update_present split: option.splits)

lemma systems_write: "systems (writeComponent i v d s) = systems s"
  by (auto simp: writeComponent_def split: option.splits)

lemma component_types_distinct:
  "TRANSFORM \<noteq> MOVEMENT" "MOVEMENT \<noteq> TRANSFORM" "TRANSFORM \<noteq> AI" "AI \<noteq> TRANSFORM"
  "MOVEMENT \<noteq> AI" "AI \<noteq> MOVEMENT"
  by (simp_all add: TRANSFORM_def MOVEMENT_def AI_def)

lemma getTransform_Some: "getComponent s i TRANSFORM = Some (TransformC t) \<Longrightarrow> getTransform s i = Inr (Some t)"
  by (simp add: getTransform_def)

lemma getMovement_Some: "getComponent s i MOVEMENT = Some (MovementC m) \<Longrightarrow> getMovement s i = Inr (Some m)"
  by (simp add: getMovement_def)

lemma getAI_Some: "getComponent s i AI = Some (AIC a) \<Longrightarrow> getAI s i = Inr (Some a)"
  by (simp add: getAI_def)

lemma applyForce_Some:
  "getComponent s i MOVEMENT = Some (MovementC m) \<Longrightarrow>
   applyForce i f s =
     Inr (writeComponent i MOVEMENT
            (MovementC (m\<lparr>velocity := \<lparr>X = X (velocity m) + X f, Y = Y (velocity m) + Y f,
                                       Z = Z (velocity m) + Z f\<rparr>\<rparr>)) s)"
  by (simp add: applyForce_def getMovement_Some)

lemma moveTowards_Some:
  assumes "getComponent s i TRANSFORM = Some (TransformC t)"
    and "getComponent s i MOVEMENT = Some (MovementC m)"
  shows "moveTowards i target dt s =
     (if planarDistance (position t) target > 0.1
      then Inr (Some False,
             writeComponent i MOVEMENT
               (MovementC (m\<lparr>velocity :=
                  \<lparr>X = X (velocity m) + (X target - X (position t)) / planarDistance (position t) target * speed m,
                   Y = Y (velocity m),
                   Z = Z (velocity m) + (Z target - Z (position t)) / planarDistance (position t) target * speed m\<rparr>\<rparr>)) s)
      else Inr (Some True, s))"
  by (simp add: moveTowards_def getTransform_Some [OF assms(1)] getMovement_Some [OF assms(2)]
        applyForce_Some [OF assms(2)] planarDistance_def power2_eq_square Let_def)

text \<open>
  Claim C6. For an entity with a transform and a movement component, \<^verbatim>\<open>moveTowards\<close>
  returns true and leaves the store unchanged when the planar distance from the position
  to the target is at most 0.1; when it is larger it returns false, and the store is the
  one \<^verbatim>\<open>applyForce\<close> yields for the force \<open>(dx / distance * speed, 0, dz / distance * speed)\<close>:
  that force is added to the velocity and nothing else changes. The transform is the same
  afterwards in both cases, so the boolean is true exactly when the planar distance is at
  most 0.1.
\<close>

theorem moveTowards_spec:
  assumes "getComponent s i TRANSFORM = Some (TransformC t)"
    and "getComponent s i MOVEMENT = Some (MovementC m)"
  shows "(planarDistance (position t) target \<le> 0.1 \<longrightarrow>
            moveTowards i target dt s = Inr (Some True, s))
       \<and> (planarDistance (position t) target > 0.1 \<longrightarrow>
            (\<exists>s'. moveTowards i target dt s = Inr (Some False, s')
               \<and> applyForce i
                    \<lparr>X = (X target - X (position t)) / planarDistance (position t) target * speed m,
                     Y = 0,
                     Z = (Z target - Z (position t)) / planarDistance (position t) target * speed m\<rparr> s
                  = Inr s'
               \<and> getComponent s' i MOVEMENT =
                    Some (MovementC (m\<lparr>velocity :=
                      \<lparr>X = X (velocity m)
                             + (X target - X (position t)) / planarDistance (position t) target * speed m,
                       Y = Y (velocity m),
                       Z = Z (velocity m)
                             + (Z target - Z (position t)) / planarDistance (position t) target * speed m\<rparr>\<rparr>))
               \<and> (\<forall>j w. (j, w) \<noteq> (i, MOVEMENT) \<longrightarrow> getComponent s' j w = getComponent s j w)
               \<and> getAllEntities s' = getAllEntities s))
       \<and> (\<exists>b s'. moveTowards i target dt s = Inr (Some b, s')
               \<and> getComponent s' i TRANSFORM = Some (TransformC t)
               \<and> (b \<longleftrightarrow> planarDistance (position t) target \<le> 0.1))"
proof (cases "planarDistance (position t) target > 0.1")
  case True
  then show ?thesis
    using assms
    by (auto simp: moveTowards_Some [OF assms] applyForce_Some [OF assms(2)] getComponent_write
          getAllEntities_write component_types_distinct)
next
  case False
  then show ?thesis
    using assms by (auto simp: moveTowards_Some [OF assms])
qed

lemma wrapDown_props:
  "wrapDown d \<le> pi \<and> (d \<le> pi \<longrightarrow> wrapDown d = d) \<and> (pi < d \<longrightarrow> - pi < wrapDown d)
   \<and> (\<exists>n::nat. wrapDown d = d - 2 * pi * real n)"
proof (induction d rule: wrapDown.induct)
  case (1 d)
  show ?case
  proof (cases "pi < d")
    case True
    note IH = "1.IH" [OF True]
    have eq: "wrapDown d = wrapDown (d - 2 * pi)" using True by (subst wrapDown.simps) simp
    obtain n :: nat where n: "wrapDown (d - 2 * pi) = d - 2 * pi - 2 * pi * real n"
      using IH by blast
    have "wrapDown d = d - 2 * pi * real (Suc n)"
      unfolding eq n by (simp add: algebra_simps)
    then have ex: "\<exists>n::nat. wrapDown d = d - 2 * pi * real n" by blast
    have "- pi < wrapDown (d - 2 * pi)"
    proof (cases "pi < d - 2 * pi")
      case True
      then show ?thesis using IH by blast
    next
      case False
      then have "wrapDown (d - 2 * pi) = d - 2 * pi" using IH by simp
      then show ?thesis using \<open>pi < d\<close> by simp
    qed
    then show ?thesis using IH eq ex True by simp
  next
    case False
    then have eq: "wrapDown d = d" by (subst wrapDown.simps) simp
    have "wrapDown d = d - 2 * pi * real (0::nat)" using eq by simp
    then have "\<exists>n::nat. wrapDown d = d - 2 * pi * real n" by blast
    then show ?thesis using False eq by simp
  qed
qed

lemma wrapUp_props:
  "- pi \<le> wrapUp d \<and> (- pi \<le> d \<longrightarrow> wrapUp d = d) \<and> (d < - pi \<longrightarrow> wrapUp d < pi)
   \<and> (\<exists>n::nat. wrapUp d = d + 2 * pi * real n)"
proof (induction d rule: wrapUp.induct)
  case (1 d)
  show ?case
  proof (cases "d < - pi")
    case True
    note IH = "1.IH" [OF True]
    have eq: "wrapUp d = wrapUp (d + 2 * pi)" using True by (subst wrapUp.simps) simp
    obtain n :: nat where n: "wrapUp (d + 2 * pi) = d + 2 * pi + 2 * pi * real n"
      using IH by blast
    have "wrapUp d = d + 2 * pi * real (Suc n)"
      unfolding eq n by (simp add: algebra_simps)
    then have ex: "\<exists>n::nat. wrapUp d = d + 2 * pi * real n" by blast
    have "wrapUp (d + 2 * pi) < pi"
    proof (cases "d + 2 * pi < - pi")
      case True
      then show ?thesis using IH by blast
    next
      case False
      then have "wrapUp (d + 2 * pi) = d + 2 * pi" using IH by simp
      then show ?thesis using \<open>d < - pi\<close> by simp
    qed
    then show ?thesis using IH eq ex True by simp
  next
    case False
    then have eq: "wrapUp d = d" by (subst wrapUp.simps) simp
    have "wrapUp d = d + 2 * pi * real (0::nat)" using eq by simp
    then have "\<exists>n::nat. wrapUp d = d + 2 * pi * real n" by blast
    then show ?thesis using False eq by simp
  qed
qed

lemma lerpAngle_shortest:
  "\<exists>k::int. lerpAngle current target factor
               = current + (target - current + 2 * pi * real_of_int k) * factor
           \<and> \<bar>target - current + 2 * pi * real_of_int k\<bar> \<le> pi"
proof -
  define d where "d = target - current"
  define d1 where "d1 = wrapDown d"
  define d2 where "d2 = wrapUp d1"
  have L: "lerpAngle current target factor = current + d2 * factor"
    by (simp add: lerpAngle_def d_def d1_def d2_def Let_def)
  obtain n :: nat where n: "d1 = d - 2 * pi * real n"
    using wrapDown_props [of d] unfolding d1_def by blast
  obtain m :: nat where m: "d2 = d1 + 2 * pi * real m"
    using wrapUp_props [of d1] unfolding d2_def by blast
  have eq: "d2 = d + 2 * pi * real_of_int (int m - int n)"
    unfolding m n by (simp add: algebra_simps)
  have lo: "- pi \<le> d2" using wrapUp_props [of d1] unfolding d2_def by blast
  have hi: "d2 \<le> pi"
  proof (cases "d1 < - pi")
    case True
    then show ?thesis using wrapUp_props [of d1] unfolding d2_def by simp
  next
    case False
    then have "d2 = d1" using wrapUp_props [of d1] unfolding d2_def by simp
    then show ?thesis using wrapDown_props [of d] unfolding d1_def by simp
  qed
  have "\<bar>d2\<bar> \<le> pi" using lo hi by simp
  then show ?thesis
    unfolding L using eq unfolding d_def by (intro exI [of _ "int m - int n"]) simp
qed

lemma lerpAngle_near: "\<bar>target - current\<bar> \<le> pi \<Longrightarrow>
  lerpAngle current target factor = current + (target - current) * factor"
  using wrapDown_props [of "target - current"] wrapUp_props [of "target - current"]
  by (simp add: lerpAngle_def Let_def)

lemma vec3_update_all:
  fixes r :: vec3
  shows "r\<lparr>Y := b, X := a, Z := c\<rparr> = \<lparr>X = a, Y = b, Z = c\<rparr>"
    and "r\<lparr>X := a, Z := c, Y := b\<rparr> = \<lparr>X = a, Y = b, Z = c\<rparr>"
  by (cases r, simp)+

text \<open>
  Claim C7. For an entity with a transform and a movement component, one
  \<^verbatim>\<open>updateEntityMovement\<close> with \<open>dt\<close> milliseconds at clock \<open>now\<close> moves \<open>position.x\<close> and
  \<open>position.z\<close> by the old velocity times \<open>dt / 1000\<close>; sets \<open>velocity.y\<close> to
  \<open>(groundY + hoverHeight - position.y) * 5\<close> with the old \<open>position.y\<close>; multiplies
  \<open>velocity.x\<close> and \<open>velocity.z\<close> by 0.95; sets \<open>position.y\<close> to
  \<open>groundY + hoverHeight + sin (now / 1000 * 2 + id) * 0.1\<close>; and, only if the damped planar
  speed exceeds 0.1, moves \<open>rotation.y\<close> towards \<open>atan2\<close> of the damped velocity by
  \<^verbatim>\<open>lerpAngle\<close> with factor \<open>dt / 1000 * 3\<close>, which steps along an angle difference of
  absolute value at most \<open>\<pi>\<close> that is congruent to \<open>target - current\<close> modulo \<open>2\<pi>\<close>.
  Every other field, component and entity is unchanged.
\<close>

theorem updateEntityMovement_spec:
  assumes T: "getComponent s i TRANSFORM = Some (TransformC t)"
    and M: "getComponent s i MOVEMENT = Some (MovementC m)"
  shows "\<exists>s' t' m'. updateEntityMovement i dt now s = Inr s'
     \<and> getComponent s' i TRANSFORM = Some (TransformC t')
     \<and> getComponent s' i MOVEMENT = Some (MovementC m')
     \<and> X (position t') = X (position t) + X (velocity m) * (dt / 1000)
     \<and> Z (position t') = Z (position t) + Z (velocity m) * (dt / 1000)
     \<and> Y (velocity m') = (groundY m + hoverHeight m - Y (position t)) * 5.0
     \<and> X (velocity m') = X (velocity m) * 0.95
     \<and> Z (velocity m') = Z (velocity m) * 0.95
     \<and> Y (position t') = groundY m + hoverHeight m + sin (now / 1000 * 2.0 + real_of_int i) * 0.1
     \<and> (sqrt ((X (velocity m'))\<^sup>2 + (Z (velocity m'))\<^sup>2) > 0.1 \<longrightarrow>
           Y (rotation t') = lerpAngle (Y (rotation t)) (atan2 (X (velocity m')) (Z (velocity m')))
                               (dt / 1000 * 3)
         \<and> (\<exists>k::int. Y (rotation t') = Y (rotation t)
                 + (atan2 (X (velocity m')) (Z (velocity m')) - Y (rotation t) + 2 * pi * real_of_int k)
                   * (dt / 1000 * 3)
               \<and> \<bar>atan2 (X (velocity m')) (Z (velocity m')) - Y (rotation t) + 2 * pi * real_of_int k\<bar> \<le> pi))
     \<and> (\<not> sqrt ((X (velocity m'))\<^sup>2 + (Z (velocity m'))\<^sup>2) > 0.1 \<longrightarrow>
           Y (rotation t') = Y (rotation t))
     \<and> X (rotation t') = X (rotation t) \<and> Z (rotation t') = Z (rotation t) \<and> scale t' = scale t
     \<and> speed m' = speed m \<and> hoverHeight m' = hoverHeight m \<and> groundY m' = groundY m
     \<and> (\<forall>j w. (j, w) \<noteq> (i, TRANSFORM) \<and> (j, w) \<noteq> (i, MOVEMENT) \<longrightarrow>
            getComponent s' j w = getComponent s j w)
     \<and> getAllEntities s' = getAllEntities s
     \<and> systems s' = systems s"
proof -
  define m' where "m' = m\<lparr>velocity := \<lparr>X = X (velocity m) * 0.95,
                                        Y = (groundY m + hoverHeight m - Y (position t)) * 5.0,
                                        Z = Z (velocity m) * 0.95\<rparr>\<rparr>"
  define ry where "ry =
     (if sqrt ((X (velocity m'))\<^sup>2 + (Z (velocity m'))\<^sup>2) > 0.1
      then lerpAngle (Y (rotation t)) (atan2 (X (velocity m')) (Z (velocity m'))) (dt / 1000 * 3)
      else Y (rotation t))"
  define t' where "t' = t\<lparr>position := \<lparr>X = X (position t) + X (velocity m) * (dt / 1000),
                                        Y = groundY m + hoverHeight m
                                              + sin (now / 1000 * 2.0 + real_of_int i) * 0.1,
                                        Z = Z (position t) + Z (velocity m) * (dt / 1000)\<rparr>,
                          rotation := (rotation t)\<lparr>Y := ry\<rparr>\<rparr>"
  define s' where "s' = writeComponent i MOVEMENT (MovementC m') (writeComponent i TRANSFORM (TransformC t') s)"
  have U: "updateEntityMovement i dt now s = Inr s'"
    unfolding s'_def t'_def ry_def m'_def
    by (simp add: updateEntityMovement_def getTransform_Some [OF T] getMovement_Some [OF M] Let_def
          applyHoverBehavior_def power2_eq_square vec3_update_all)
  have gT: "getComponent s' i TRANSFORM = Some (TransformC t')"
    and gM: "getComponent s' i MOVEMENT = Some (MovementC m')"
    and other: "\<forall>j w. (j, w) \<noteq> (i, TRANSFORM) \<and> (j, w) \<noteq> (i, MOVEMENT) \<longrightarrow>
            getComponent s' j w = getComponent s j w"
    and ents: "getAllEntities s' = getAllEntities s"
    and sys: "systems s' = systems s"
    unfolding s'_def using T M
    by (auto simp: getComponent_write component_types_distinct getAllEntities_write systems_write)
  have rot: "sqrt ((X (velocity m'))\<^sup>2 + (Z (velocity m'))\<^sup>2) > 0.1 \<longrightarrow>
           Y (rotation t') = lerpAngle (Y (rotation t)) (atan2 (X (velocity m')) (Z (velocity m')))
                               (dt / 1000 * 3)
         \<and> (\<exists>k::int. Y (rotation t') = Y (rotation t)
                 + (atan2 (X (velocity m')) (Z (velocity m')) - Y (rotation t) + 2 * pi * real_of_int k)
                   * (dt / 1000 * 3)
               \<and> \<bar>atan2 (X (velocity m')) (Z (velocity m')) - Y (rotation t) + 2 * pi * real_of_int k\<bar> \<le> pi)"
    using lerpAngle_shortest [of "Y (rotation t)" "atan2 (X (velocity m')) (Z (velocity m'))" "dt / 1000 * 3"]
    by (simp add: t'_def ry_def)
  have norot: "\<not> sqrt ((X (velocity m'))\<^sup>2 + (Z (velocity m'))\<^sup>2) > 0.1 \<longrightarrow>
           Y (rotation t') = Y (rotation t)"
    by (simp add: t'_def ry_def)
  have fields: "X (position t') = X (position t) + X (velocity m) * (dt / 1000)"
    "Z (position t') = Z (position t) + Z (velocity m) * (dt / 1000)"
    "Y (velocity m') = (groundY m + hoverHeight m - Y (position t)) * 5.0"
    "X (velocity m') = X (velocity m) * 0.95"
    "Z (velocity m') = Z (velocity m) * 0.95"
    "Y (position t') = groundY m + hoverHeight m + sin (now / 1000 * 2.0 + real_of_int i) * 0.1"
    "X (rotation t') = X (rotation t)" "Z (rotation t') = Z (rotation t)" "scale t' = scale t"
    "speed m' = speed m" "hoverHeight m' = hoverHeight m" "groundY m' = groundY m"
    by (simp_all add: t'_def m'_def)
  show ?thesis
    apply (rule exI [of _ s'], rule exI [of _ t'], rule exI [of _ m'])
    using U gT gM other ents sys rot norot fields by blast
qed

section \<open>Properties of the AI system\<close>

lemma scanInRange_total:
  "(\<forall>i c. getComponent s i TRANSFORM = Some c \<longrightarrow> (\<exists>t. c = TransformC t)) \<Longrightarrow>
   \<exists>res. scanInRange p r s ids = Inr res"
proof (induction ids)
  case Nil
  show ?case by simp
next
  case (Cons i ids)
  obtain res where res: "scanInRange p r s ids = Inr res" using Cons by blast
  show ?case
  proof (cases "getComponent s i TRANSFORM")
    case None
    then show ?thesis by (simp add: getTransform_def res)
  next
    case (Some c)
    then obtain t where "c = TransformC t" using Cons.prems by blast
    then show ?thesis using Some by (simp add: getTransform_def res Let_def)
  qed
qed

lemma scanInRange_result:
  "scanInRange p r s ids = Inr res \<Longrightarrow>
     (\<forall>e\<in>set res. \<exists>t. getComponent s (fst e) TRANSFORM = Some (TransformC t)
                      \<and> e = (fst e, planarDistance p (position t), position t)
                      \<and> planarDistance p (position t) \<le> r \<and> fst e \<in> set ids)
   \<and> (\<forall>k. map fst (filter (\<lambda>(i, d, q). d = k) res)
          = filter (\<lambda>i. \<exists>t. getComponent s i TRANSFORM = Some (TransformC t)
                           \<and> planarDistance p (position t) = k \<and> k \<le> r) ids)"
proof (induction ids arbitrary: res)
  case Nil
  then show ?case by simp
next
  case (Cons i ids)
  show ?case
  proof (cases "getComponent s i TRANSFORM")
    case None
    then have "scanInRange p r s ids = Inr res"
      using Cons.prems by (simp add: getTransform_def)
    from Cons.IH [OF this] show ?thesis using None by auto
  next
    case (Some c)
    then obtain t where c: "c = TransformC t"
      using Cons.prems by (cases c) (simp_all add: getTransform_def)
    have gt: "getTransform s i = Inr (Some t)" using Some c by (simp add: getTransform_def)
    obtain rest where rest: "scanInRange p r s ids = Inr rest"
      and res: "res = (if planarDistance p (position t) \<le> r
                       then (i, planarDistance p (position t), position t) # rest else rest)"
      using Cons.prems
      by (auto simp: gt Let_def planarDistance_def power2_eq_square split: sum.splits)
    note IH = Cons.IH [OF rest]
    show ?thesis
    proof (cases "planarDistance p (position t) \<le> r")
      case True
      then show ?thesis using IH Some c res by auto
    next
      case False
      then show ?thesis using IH Some c res by auto
    qed
  qed
qed

text \<open>
  Claim C9. In a manager whose entity ids are distinct, \<^verbatim>\<open>getEntitiesInRange\<close> returns a
  result whenever every payload under the transform key is a transform, and the result
  holds exactly the triples (id, planar distance, position) of the entities with a
  transform whose planar distance to the given position is at most the range, so an
  entity exactly at the range is in and one beyond it is out. The distances are in
  non-decreasing order, and for each distance the ids at that distance appear in the
  iteration order of the store.
\<close>

theorem getEntitiesInRange_spec:
  assumes "distinct (getAllEntities s)"
  shows "((\<forall>i c. getComponent s i TRANSFORM = Some c \<longrightarrow> (\<exists>t. c = TransformC t)) \<longrightarrow>
            (\<exists>res. getEntitiesInRange p r s = Inr res))
       \<and> (\<forall>res. getEntitiesInRange p r s = Inr res \<longrightarrow>
            set res = {(i, planarDistance p (position t), position t) | i t.
                         getComponent s i TRANSFORM = Some (TransformC t)
                         \<and> planarDistance p (position t) \<le> r}
          \<and> sorted (map (\<lambda>(i, d, q). d) res)
          \<and> (\<forall>k. map fst (filter (\<lambda>(i, d, q). d = k) res)
                 = filter (\<lambda>i. \<exists>t. getComponent s i TRANSFORM = Some (TransformC t)
                                  \<and> planarDistance p (position t) = k \<and> k \<le> r)
                     (getAllEntities s)))"
proof (intro conjI impI allI)
  assume "\<forall>i c. getComponent s i TRANSFORM = Some c \<longrightarrow> (\<exists>t. c = TransformC t)"
  from scanInRange_total [OF this, of p r "getEntitiesWithComponents [TRANSFORM] s"]
  show "\<exists>res. getEntitiesInRange p r s = Inr res"
    by (auto simp: getEntitiesInRange_def)
next
  fix res
  assume R: "getEntitiesInRange p r s = Inr res"
  define ids where "ids = getEntitiesWithComponents [TRANSFORM] s"
  have d: "distinct (map fst (entities s))" using assms by (simp add: getAllEntities_def)
  have ids: "ids = filter (\<lambda>i. hasComponent s i TRANSFORM) (getAllEntities s)"
    unfolding ids_def query_as_filter [OF d] by (intro filter_cong) auto
  obtain scan where scan: "scanInRange p r s ids = Inr scan"
    and res: "res = sort_key (\<lambda>(i, d, q). d) scan"
    using R by (auto simp: getEntitiesInRange_def ids_def split: sum.splits)
  note S = scanInRange_result [OF scan]
  have stable: "map fst (filter (\<lambda>(i, d, q). d = k) res)
                 = filter (\<lambda>i. \<exists>t. getComponent s i TRANSFORM = Some (TransformC t)
                                  \<and> planarDistance p (position t) = k \<and> k \<le> r)
                     (getAllEntities s)" for k
  proof -
    have "filter (\<lambda>(i, d, q). d = k) res = filter (\<lambda>e. (\<lambda>(i, d, q). d) e = k) res"
      by (intro filter_cong) auto
    also have "\<dots> = filter (\<lambda>e. (\<lambda>(i, d, q). d) e = k) scan"
      unfolding res by (rule sort_key_stable)
    also have "\<dots> = filter (\<lambda>(i, d, q). d = k) scan"
      by (intro filter_cong) auto
    finally have "map fst (filter (\<lambda>(i, d, q). d = k) res) = map fst (filter (\<lambda>(i, d, q). d = k) scan)"
      by simp
    also have "\<dots> = filter (\<lambda>i. \<exists>t. getComponent s i TRANSFORM = Some (TransformC t)
                                  \<and> planarDistance p (position t) = k \<and> k \<le> r) ids"
      using S by blast
    also have "\<dots> = filter (\<lambda>i. \<exists>t. getComponent s i TRANSFORM = Some (TransformC t)
                                  \<and> planarDistance p (position t) = k \<and> k \<le> r) (getAllEntities s)"
      unfolding ids filter_filter
      by (intro filter_cong) (auto simp: hasComponent_getComponent)
    finally show ?thesis .
  qed
  show "\<And>k. map fst (filter (\<lambda>(i, d, q). d = k) res)
                 = filter (\<lambda>i. \<exists>t. getComponent s i TRANSFORM = Some (TransformC t)
                                  \<and> planarDistance p (position t) = k \<and> k \<le> r)
                     (getAllEntities s)"
    by (rule stable)
  show "sorted (map (\<lambda>(i, d, q). d) res)"
    unfolding res by (rule sorted_sort_key)
  show "set res = {(i, planarDistance p (position t), position t) | i t.
                         getComponent s i TRANSFORM = Some (TransformC t)
                         \<and> planarDistance p (position t) \<le> r}"
  proof (intro set_eqI iffI)
    fix e
    assume "e \<in> set res"
    then have "e \<in> set scan" by (simp add: res)
    then obtain t where "getComponent s (fst e) TRANSFORM = Some (TransformC t)"
      "e = (fst e, planarDistance p (position t), position t)" "planarDistance p (position t) \<le> r"
      using S by blast
    then show "e \<in> {(i, planarDistance p (position t), position t) | i t.
                         getComponent s i TRANSFORM = Some (TransformC t)
                         \<and> planarDistance p (position t) \<le> r}"
      by blast
  next
    fix e
    assume "e \<in> {(i, planarDistance p (position t), position t) | i t.
                         getComponent s i TRANSFORM = Some (TransformC t)
                         \<and> planarDistance p (position t) \<le> r}"
    then obtain i t where e: "e = (i, planarDistance p (position t), position t)"
      and g: "getComponent s i TRANSFORM = Some (TransformC t)"
      and le: "planarDistance p (position t) \<le> r"
      by blast
    have live: "i \<in> set (getAllEntities s)"
      using g by (auto simp: getComponent_def getAllEntities_def split: option.splits dest: map_of_Some_key)
    have "i \<in> set (filter (\<lambda>i. \<exists>t. getComponent s i TRANSFORM = Some (TransformC t)
                                  \<and> planarDistance p (position t) = planarDistance p (position t)
                                  \<and> planarDistance p (position t) \<le> r) (getAllEntities s))"
      using live g le by auto
    then have "i \<in> set (map fst (filter (\<lambda>(i, d, q). d = planarDistance p (position t)) res))"
      using stable [of "planarDistance p (position t)"] g le live by auto
    then obtain e' where e': "e' \<in> set res" "fst e' = i" by auto
    then have "e' \<in> set scan" by (simp add: res)
    then obtain t' where "getComponent s (fst e') TRANSFORM = Some (TransformC t')"
      "e' = (fst e', planarDistance p (position t'), position t')"
      using S by blast
    then have "e' = e" using e' g e by simp
    then show "e \<in> set res" using e' by simp
  qed
qed

lemma moveTowards_keeps_AI:
  assumes "getComponent s i TRANSFORM = Some (TransformC t)"
    and "getComponent s i MOVEMENT = Some (MovementC m)"
  shows "\<exists>b s1. moveTowards i target dt s = Inr (Some b, s1)
               \<and> (\<forall>j. getComponent s1 j AI = getComponent s j AI)"
  by (auto simp: moveTowards_Some [OF assms] getComponent_write component_types_distinct)

lemma handleWanderBehavior_result:
  assumes T: "getComponent s i TRANSFORM = Some (TransformC t)"
    and M: "getComponent s i MOVEMENT = Some (MovementC m)"
    and A: "getComponent s i AI = Some (AIC a)"
  shows "\<exists>s' a'. handleWanderBehavior env i a t dt s = Inr s'
      \<and> getComponent s' i AI = Some (AIC a')
      \<and> (\<forall>j. j \<noteq> i \<longrightarrow> getComponent s' j AI = getComponent s j AI)
      \<and> behavior a' = behavior a
      \<and> ((state a' = ''moving'' \<and> targetPosition a' \<noteq> None)
         \<or> (state a' = ''idle'' \<and> targetPosition a' = None)
         \<or> (state a' = state a \<and> targetPosition a' = targetPosition a))"
proof -
  define a1 where "a1 = (if currentTime env - lastDirectionChange a > directionChangeInterval a
                then (chooseNewWanderTarget env a t)
                       \<lparr>lastDirectionChange := currentTime env, state := ''moving''\<rparr>
                else a)"
  have b1: "behavior a1 = behavior a"
    by (simp add: a1_def chooseNewWanderTarget_def Let_def)
  have c1: "(state a1 = ''moving'' \<and> targetPosition a1 \<noteq> None)
           \<or> (state a1 = state a \<and> targetPosition a1 = targetPosition a)"
    by (simp add: a1_def chooseNewWanderTarget_def Let_def)
  show ?thesis
  proof (cases "targetPosition a1")
    case None
    then have "handleWanderBehavior env i a t dt s = Inr (writeComponent i AI (AIC a1) s)"
      by (simp add: handleWanderBehavior_def a1_def [symmetric] Let_def)
    then show ?thesis using A b1 c1 by (auto simp: getComponent_write)
  next
    case (Some tg)
    show ?thesis
    proof (cases "state a1 = ''moving''")
      case False
      then have "handleWanderBehavior env i a t dt s = Inr (writeComponent i AI (AIC a1) s)"
        using Some by (simp add: handleWanderBehavior_def a1_def [symmetric] Let_def)
      then show ?thesis using A b1 c1 by (auto simp: getComponent_write)
    next
      case True
      obtain b s1 where mt: "moveTowards i tg dt s = Inr (Some b, s1)"
        and keep: "\<forall>j. getComponent s1 j AI = getComponent s j AI"
        using moveTowards_keeps_AI [OF T M] by blast
      define a2 where "a2 = (if b then a1\<lparr>state := ''idle'', targetPosition := None,
                                            directionChangeInterval := 1000 + randomInterval env * 3000,
                                            lastDirectionChange := arrivalTime env\<rparr>
                             else a1)"
      have "handleWanderBehavior env i a t dt s = Inr (writeComponent i AI (AIC a2) s1)"
        using Some True mt
        by (simp add: handleWanderBehavior_def a1_def [symmetric] a2_def Let_def)
      moreover have "behavior a2 = behavior a" using b1 by (simp add: a2_def)
      moreover have "(state a2 = ''moving'' \<and> targetPosition a2 \<noteq> None)
         \<or> (state a2 = ''idle'' \<and> targetPosition a2 = None)
         \<or> (state a2 = state a \<and> targetPosition a2 = targetPosition a)"
        using c1 by (auto simp: a2_def)
      ultimately show ?thesis using A keep by (auto simp: getComponent_write)
    qed
  qed
qed

lemma handleSeekBehavior_result:
  assumes T: "getComponent s i TRANSFORM = Some (TransformC t)"
    and M: "getComponent s i MOVEMENT = Some (MovementC m)"
    and A: "getComponent s i AI = Some (AIC a)"
  shows "\<exists>s' a'. handleSeekBehavior i a t dt s = Inr s'
      \<and> getComponent s' i AI = Some (AIC a')
      \<and> (\<forall>j. j \<noteq> i \<longrightarrow> getComponent s' j AI = getComponent s j AI)
      \<and> (a' = a \<and> targetPosition a \<noteq> None
         \<or> a' = a\<lparr>behavior := ''wander'', targetPosition := None\<rparr>)"
proof (cases "targetPosition a")
  case None
  then have "handleSeekBehavior i a t dt s = Inr (writeComponent i AI (AIC (a\<lparr>behavior := ''wander''\<rparr>)) s)"
    by (simp add: handleSeekBehavior_def)
  moreover have "a\<lparr>behavior := ''wander''\<rparr> = a\<lparr>behavior := ''wander'', targetPosition := None\<rparr>"
    using None by simp
  ultimately show ?thesis using A by (auto simp: getComponent_write)
next
  case (Some tg)
  obtain b s1 where mt: "moveTowards i tg dt s = Inr (Some b, s1)"
    and keep: "\<forall>j. getComponent s1 j AI = getComponent s j AI"
    using moveTowards_keeps_AI [OF T M] by blast
  have "handleSeekBehavior i a t dt s =
          Inr (writeComponent i AI (AIC (if b then a\<lparr>behavior := ''wander'', targetPosition := None\<rparr> else a)) s1)"
    using Some mt by (simp add: handleSeekBehavior_def)
  then show ?thesis using A keep Some by (auto simp: getComponent_write)
qed

lemma handleIdleBehavior_result:
  assumes A: "getComponent s i AI = Some (AIC a)"
  shows "\<exists>s' a'. handleIdleBehavior env i a t dt s = Inr s'
      \<and> getComponent s' i AI = Some (AIC a')
      \<and> (\<forall>j. j \<noteq> i \<longrightarrow> getComponent s' j AI = getComponent s j AI)
      \<and> (a' = a \<or> a' = a\<lparr>behavior := ''wander''\<rparr>)"
  using A by (auto simp: handleIdleBehavior_def getComponent_write)

text \<open>
  Claim C3, amended. For an entity with an AI component: \<^verbatim>\<open>setTarget\<close> with a position
  makes the behaviour seek, the state moving and the target that position, so both
  properties hold afterwards; \<^verbatim>\<open>setBehavior\<close> makes the state idle, so a moving entity has
  a target, and leaves the target as it was. If the entity also has a transform and a
  movement component, an update in wander or idle behaviour keeps each of the two
  properties that held before; an update in seek behaviour yields an AI component whose
  target is held only while pursuing, keeps "a moving entity has a target" when the
  behaviour stays seek or the state was not moving, and when it leaves seek behaviour it
  switches to wander with the target cleared and the state as it was. No operation changes
  the AI component of another entity.
\<close>

theorem ai_properties_amended:
  assumes A: "getComponent s i AI = Some (AIC a)"
  shows "(\<exists>s' a'. setTarget i (Some p) s = Inr s'
            \<and> getComponent s' i AI = Some (AIC a')
            \<and> (\<forall>j. j \<noteq> i \<longrightarrow> getComponent s' j AI = getComponent s j AI)
            \<and> behavior a' = ''seek'' \<and> state a' = ''moving'' \<and> targetPosition a' = Some p
            \<and> movingHasTarget a' \<and> targetOnlyWhilePursuing a')
       \<and> (\<exists>s' a'. setBehavior i b now s = Inr s'
            \<and> getComponent s' i AI = Some (AIC a')
            \<and> (\<forall>j. j \<noteq> i \<longrightarrow> getComponent s' j AI = getComponent s j AI)
            \<and> behavior a' = b \<and> state a' = ''idle'' \<and> targetPosition a' = targetPosition a
            \<and> movingHasTarget a')
       \<and> (getComponent s i TRANSFORM = Some (TransformC t)
            \<and> getComponent s i MOVEMENT = Some (MovementC m) \<longrightarrow>
          (\<exists>s' a'. updateEntityAI env i dt s = Inr s'
            \<and> getComponent s' i AI = Some (AIC a')
            \<and> (\<forall>j. j \<noteq> i \<longrightarrow> getComponent s' j AI = getComponent s j AI)
            \<and> (behavior a = ''wander'' \<or> behavior a = ''idle'' \<longrightarrow>
                  (movingHasTarget a \<longrightarrow> movingHasTarget a')
                \<and> (targetOnlyWhilePursuing a \<longrightarrow> targetOnlyWhilePursuing a'))
            \<and> (behavior a = ''seek'' \<longrightarrow>
                  targetOnlyWhilePursuing a'
                \<and> (movingHasTarget a \<and> (behavior a' = ''seek'' \<or> state a \<noteq> ''moving'') \<longrightarrow>
                     movingHasTarget a')
                \<and> (behavior a' \<noteq> ''seek'' \<longrightarrow>
                     behavior a' = ''wander'' \<and> targetPosition a' = None \<and> state a' = state a))))"
proof (intro conjI impI)
  show "\<exists>s' a'. setTarget i (Some p) s = Inr s'
            \<and> getComponent s' i AI = Some (AIC a')
            \<and> (\<forall>j. j \<noteq> i \<longrightarrow> getComponent s' j AI = getComponent s j AI)
            \<and> behavior a' = ''seek'' \<and> state a' = ''moving'' \<and> targetPosition a' = Some p
            \<and> movingHasTarget a' \<and> targetOnlyWhilePursuing a'"
    using A
    by (auto simp: setTarget_def getAI_Some [OF A] getComponent_write movingHasTarget_def
          targetOnlyWhilePursuing_def pursuing_def)
next
  show "\<exists>s' a'. setBehavior i b now s = Inr s'
            \<and> getComponent s' i AI = Some (AIC a')
            \<and> (\<forall>j. j \<noteq> i \<longrightarrow> getComponent s' j AI = getComponent s j AI)
            \<and> behavior a' = b \<and> state a' = ''idle'' \<and> targetPosition a' = targetPosition a
            \<and> movingHasTarget a'"
    using A
    by (auto simp: setBehavior_def getAI_Some [OF A] getComponent_write movingHasTarget_def)
next
  assume TM: "getComponent s i TRANSFORM = Some (TransformC t)
            \<and> getComponent s i MOVEMENT = Some (MovementC m)"
  then have T: "getComponent s i TRANSFORM = Some (TransformC t)"
    and M: "getComponent s i MOVEMENT = Some (MovementC m)" by simp_all
  have U: "updateEntityAI env i dt s =
     (if behavior a = ''wander'' then handleWanderBehavior env i a t dt s
      else if behavior a = ''seek'' then handleSeekBehavior i a t dt s
      else if behavior a = ''idle'' then handleIdleBehavior env i a t dt s
      else Inr s)"
    by (simp add: updateEntityAI_def getAI_Some [OF A] getTransform_Some [OF T])
  consider (w) "behavior a = ''wander''" | (s) "behavior a = ''seek''" | (i) "behavior a = ''idle''"
    | (o) "behavior a \<noteq> ''wander''" "behavior a \<noteq> ''seek''" "behavior a \<noteq> ''idle''"
    by blast
  then show "\<exists>s' a'. updateEntityAI env i dt s = Inr s'
            \<and> getComponent s' i AI = Some (AIC a')
            \<and> (\<forall>j. j \<noteq> i \<longrightarrow> getComponent s' j AI = getComponent s j AI)
            \<and> (behavior a = ''wander'' \<or> behavior a = ''idle'' \<longrightarrow>
                  (movingHasTarget a \<longrightarrow> movingHasTarget a')
                \<and> (targetOnlyWhilePursuing a \<longrightarrow> targetOnlyWhilePursuing a'))
            \<and> (behavior a = ''seek'' \<longrightarrow>
                  targetOnlyWhilePursuing a'
                \<and> (movingHasTarget a \<and> (behavior a' = ''seek'' \<or> state a \<noteq> ''moving'') \<longrightarrow>
                     movingHasTarget a')
                \<and> (behavior a' \<noteq> ''seek'' \<longrightarrow>
                     behavior a' = ''wander'' \<and> targetPosition a' = None \<and> state a' = state a))"
  proof cases
    case w
    obtain s' a' where r: "handleWanderBehavior env i a t dt s = Inr s'"
      "getComponent s' i AI = Some (AIC a')"
      "\<forall>j. j \<noteq> i \<longrightarrow> getComponent s' j AI = getComponent s j AI"
      "behavior a' = behavior a"
      "(state a' = ''moving'' \<and> targetPosition a' \<noteq> None)
         \<or> (state a' = ''idle'' \<and> targetPosition a' = None)
         \<or> (state a' = state a \<and> targetPosition a' = targetPosition a)"
      using handleWanderBehavior_result [OF T M A] by blast
    have "movingHasTarget a \<longrightarrow> movingHasTarget a'"
      using r(5) by (auto simp: movingHasTarget_def)
    moreover have "targetOnlyWhilePursuing a \<longrightarrow> targetOnlyWhilePursuing a'"
      using r(4,5) w by (auto simp: targetOnlyWhilePursuing_def pursuing_def)
    ultimately show ?thesis
      using r(1,2,3) w by (intro exI [of _ s'] exI [of _ a']) (simp add: U)
  next
    case s
    obtain s' a' where r: "handleSeekBehavior i a t dt s = Inr s'"
      "getComponent s' i AI = Some (AIC a')"
      "\<forall>j. j \<noteq> i \<longrightarrow> getComponent s' j AI = getComponent s j AI"
      "a' = a \<and> targetPosition a \<noteq> None \<or> a' = a\<lparr>behavior := ''wander'', targetPosition := None\<rparr>"
      using handleSeekBehavior_result [OF T M A] by blast
    have 1: "targetOnlyWhilePursuing a'"
      using r(4) s by (auto simp: targetOnlyWhilePursuing_def pursuing_def)
    have 2: "movingHasTarget a \<and> (behavior a' = ''seek'' \<or> state a \<noteq> ''moving'') \<longrightarrow> movingHasTarget a'"
      using r(4) s by (auto simp: movingHasTarget_def)
    have 3: "behavior a' \<noteq> ''seek'' \<longrightarrow>
               behavior a' = ''wander'' \<and> targetPosition a' = None \<and> state a' = state a"
      using r(4) s by auto
    show ?thesis
      using r(1,2,3) s 1 2 3 by (intro exI [of _ s'] exI [of _ a']) (simp add: U)
  next
    case i
    obtain s' a' where r: "handleIdleBehavior env i a t dt s = Inr s'"
      "getComponent s' i AI = Some (AIC a')"
      "\<forall>j. j \<noteq> i \<longrightarrow> getComponent s' j AI = getComponent s j AI"
      "a' = a \<or> a' = a\<lparr>behavior := ''wander''\<rparr>"
      using handleIdleBehavior_result [OF A] by blast
    have "movingHasTarget a \<longrightarrow> movingHasTarget a'"
      using r(4) by (auto simp: movingHasTarget_def)
    moreover have "targetOnlyWhilePursuing a \<longrightarrow> targetOnlyWhilePursuing a'"
      using r(4) i by (auto simp: targetOnlyWhilePursuing_def pursuing_def)
    ultimately show ?thesis
      using r(1,2,3) i by (intro exI [of _ s'] exI [of _ a']) (simp add: U)
  next
    case o
    then show ?thesis using A by (intro exI [of _ s] exI [of _ a]) (simp add: U)
  qed
qed

lemma sqrt_values: "sqrt 25 = 5" "sqrt 36 = 6" "sqrt (361 / 100) = 19 / 10"
  using real_sqrt_abs [of 5] real_sqrt_abs [of 6] real_sqrt_abs [of "19 / 10"]
  by (simp_all add: power2_eq_square)

lemmas world_defs = world_def origin_def createTransformComponent_def createMovementComponent_def
  createAIComponent_def TRANSFORM_def MOVEMENT_def AI_def RenderSystem_def MovementSystem_def
  AISystem_def

lemma world_components:
  "getComponent world 1 TRANSFORM = Some (TransformC (createTransformComponent 0 0 0 origin))"
  "getComponent world 1 MOVEMENT = Some (MovementC (createMovementComponent 2 1.5))"
  "getComponent world 1 AI = Some (AIC (createAIComponent ''wander'' None))"
  by (simp_all add: getComponent_def world_defs)

theorem moveTowards_spec_witness:
  "getComponent world 1 TRANSFORM = Some (TransformC (createTransformComponent 0 0 0 origin))
   \<and> getComponent world 1 MOVEMENT = Some (MovementC (createMovementComponent 2 1.5))
   \<and> planarDistance origin \<lparr>X = 3, Y = 0, Z = 4\<rparr> = 5
   \<and> moveTowards 1 \<lparr>X = 3, Y = 0, Z = 4\<rparr> 16 world =
       Inr (Some False,
            writeComponent 1 MOVEMENT
              (MovementC ((createMovementComponent 2 1.5)\<lparr>velocity := \<lparr>X = 6 / 5, Y = 0, Z = 8 / 5\<rparr>\<rparr>))
              world)
   \<and> moveTowards 1 origin 16 world = Inr (Some True, world)"
proof -
  have d: "planarDistance origin \<lparr>X = 3, Y = 0, Z = 4\<rparr> = 5"
    by (simp add: planarDistance_def origin_def sqrt_values)
  have d0: "planarDistance origin origin = 0"
    by (simp add: planarDistance_def origin_def)
  have p: "position (createTransformComponent 0 0 0 origin) = origin"
    by (simp add: createTransformComponent_def origin_def)
  show ?thesis
    using moveTowards_spec [OF world_components(1,2), of "\<lparr>X = 3, Y = 0, Z = 4\<rparr>" 16]
      moveTowards_spec [OF world_components(1,2), of origin 16]
    by (simp add: world_components p d d0 applyForce_Some [OF world_components(2)]
          createMovementComponent_def) (simp add: origin_def)
qed

theorem updateEntityMovement_spec_witness:
  "applyForce 1 \<lparr>X = 2, Y = 0, Z = 0\<rparr> world = Inr pushed
   \<and> getComponent pushed 1 TRANSFORM = Some (TransformC (createTransformComponent 0 0 0 origin))
   \<and> getComponent pushed 1 MOVEMENT =
       Some (MovementC ((createMovementComponent 2 1.5)\<lparr>velocity := \<lparr>X = 2, Y = 0, Z = 0\<rparr>\<rparr>))
   \<and> updateEntityMovement 1 20 0 pushed =
       Inr (writeComponent 1 MOVEMENT
              (MovementC ((createMovementComponent 2 1.5)
                            \<lparr>velocity := \<lparr>X = 19 / 10, Y = 15 / 2, Z = 0\<rparr>\<rparr>))
           (writeComponent 1 TRANSFORM
              (TransformC ((createTransformComponent 0 0 0 origin)
                            \<lparr>position := \<lparr>X = 1 / 25, Y = 3 / 2 + sin 1 / 10, Z = 0\<rparr>,
                              rotation := \<lparr>X = 0, Y = 3 * pi / 100, Z = 0\<rparr>\<rparr>))
              pushed))"
proof -
  have T: "getComponent pushed 1 TRANSFORM = Some (TransformC (createTransformComponent 0 0 0 origin))"
    and M: "getComponent pushed 1 MOVEMENT =
       Some (MovementC ((createMovementComponent 2 1.5)\<lparr>velocity := \<lparr>X = 2, Y = 0, Z = 0\<rparr>\<rparr>))"
    by (simp_all add: pushed_def getComponent_write world_components component_types_distinct)
  have F: "applyForce 1 \<lparr>X = 2, Y = 0, Z = 0\<rparr> world = Inr pushed"
    by (simp add: applyForce_Some [OF world_components(2)] pushed_def createMovementComponent_def)
  have L: "lerpAngle 0 (pi / 2) (3 / 50) = 3 * pi / 100"
    by (subst lerpAngle_near) simp_all
  have A: "atan2 (19 / 10) 0 = pi / 2" by (simp add: atan2_def)
  have U: "updateEntityMovement 1 20 0 pushed =
       Inr (writeComponent 1 MOVEMENT
              (MovementC ((createMovementComponent 2 1.5)
                            \<lparr>velocity := \<lparr>X = 19 / 10, Y = 15 / 2, Z = 0\<rparr>\<rparr>))
           (writeComponent 1 TRANSFORM
              (TransformC ((createTransformComponent 0 0 0 origin)
                            \<lparr>position := \<lparr>X = 1 / 25, Y = 3 / 2 + sin 1 / 10, Z = 0\<rparr>,
                              rotation := \<lparr>X = 0, Y = 3 * pi / 100, Z = 0\<rparr>\<rparr>))
              pushed))"
    by (simp add: L A updateEntityMovement_def getTransform_Some [OF T] getMovement_Some [OF M] Let_def
          applyHoverBehavior_def createMovementComponent_def createTransformComponent_def origin_def
          sqrt_values vec3_update_all)
  show ?thesis
    using updateEntityMovement_spec [OF T M, of 20 0] T M F U by simp
qed

lemma world_in_range:
  "getEntitiesInRange origin 5 world =
     Inr [(1, 0, origin), (2, 5, \<lparr>X = 3, Y = 0, Z = 4\<rparr>), (3, 5, \<lparr>X = 0, Y = 0, Z = 5\<rparr>)]"
  by (simp add: getEntitiesInRange_def getEntitiesWithComponents_def getTransform_def
        getComponent_def world_defs sqrt_values)

theorem getEntitiesInRange_spec_witness:
  "distinct (getAllEntities world)
   \<and> getEntitiesInRange origin 5 world =
       Inr [(1, 0, origin), (2, 5, \<lparr>X = 3, Y = 0, Z = 4\<rparr>), (3, 5, \<lparr>X = 0, Y = 0, Z = 5\<rparr>)]
   \<and> filter (\<lambda>i. \<exists>t. getComponent world i TRANSFORM = Some (TransformC t)
                      \<and> planarDistance origin (position t) = 5 \<and> (5::real) \<le> 5)
        (getAllEntities world) = [2, 3]"
proof -
  have d: "distinct (getAllEntities world)"
    by (simp add: getAllEntities_def world_def)
  show ?thesis
    using getEntitiesInRange_spec [OF d, of origin 5] d world_in_range
    by (auto dest!: spec [of _ 5])
qed

text \<open>
  Claim C3 as stated fails. After \<^verbatim>\<open>setTarget(1, origin)\<close> both properties hold for
  entity 1, which stands at the origin. The next update finds it arrived: the target is
  cleared and the behaviour becomes wander, but the state is still moving, so a moving
  entity has no target. And \<^verbatim>\<open>setBehavior(1, "idle")\<close> in that state leaves the target in
  place on an entity that pursues nothing.
\<close>

theorem ai_properties_counterexample:
  "setTarget 1 (Some origin) world = Inr seeking
   \<and> getComponent seeking 1 AI = Some (AIC seekingAI)
   \<and> movingHasTarget seekingAI \<and> targetOnlyWhilePursuing seekingAI
   \<and> updateEntityAI env0 1 16 seeking = Inr (writeComponent 1 AI (AIC arrivedAI) seeking)
   \<and> getComponent (writeComponent 1 AI (AIC arrivedAI) seeking) 1 AI = Some (AIC arrivedAI)
   \<and> state arrivedAI = ''moving'' \<and> targetPosition arrivedAI = None
   \<and> \<not> movingHasTarget arrivedAI
   \<and> setBehavior 1 ''idle'' 0 seeking = Inr (writeComponent 1 AI (AIC idledAI) seeking)
   \<and> getComponent (writeComponent 1 AI (AIC idledAI) seeking) 1 AI = Some (AIC idledAI)
   \<and> targetPosition idledAI = Some origin \<and> state idledAI = ''idle'' \<and> behavior idledAI = ''idle''
   \<and> \<not> targetOnlyWhilePursuing idledAI"
proof -
  have 1: "setTarget 1 (Some origin) world = Inr seeking"
    by (simp add: setTarget_def getAI_Some [OF world_components(3)] seeking_def seekingAI_def)
  have A: "getComponent seeking 1 AI = Some (AIC seekingAI)"
    and T: "getComponent seeking 1 TRANSFORM = Some (TransformC (createTransformComponent 0 0 0 origin))"
    and M: "getComponent seeking 1 MOVEMENT = Some (MovementC (createMovementComponent 2 1.5))"
    by (simp_all add: seeking_def getComponent_write world_components component_types_distinct)
  have mt: "moveTowards 1 origin 16 seeking = Inr (Some True, seeking)"
    by (simp add: moveTowards_Some [OF T M] planarDistance_def createTransformComponent_def origin_def)
  have 2: "updateEntityAI env0 1 16 seeking = Inr (writeComponent 1 AI (AIC arrivedAI) seeking)"
  proof -
    have b: "behavior seekingAI = ''seek''" "targetPosition seekingAI = Some origin"
      by (simp_all add: seekingAI_def)
    show ?thesis
      by (simp add: updateEntityAI_def getAI_Some [OF A] getTransform_Some [OF T]
            handleSeekBehavior_def mt arrivedAI_def b)
  qed
  have 3: "setBehavior 1 ''idle'' 0 seeking = Inr (writeComponent 1 AI (AIC idledAI) seeking)"
    by (simp add: setBehavior_def getAI_Some [OF A] idledAI_def)
  show ?thesis
    using 1 2 3 A
    by (simp add: getComponent_write movingHasTarget_def targetOnlyWhilePursuing_def pursuing_def
          arrivedAI_def idledAI_def seekingAI_def createAIComponent_def)
qed

theorem ai_properties_amended_witness:
  "getComponent world 1 AI = Some (AIC (createAIComponent ''wander'' None))
   \<and> getComponent world 1 TRANSFORM = Some (TransformC (createTransformComponent 0 0 0 origin))
   \<and> getComponent world 1 MOVEMENT = Some (MovementC (createMovementComponent 2 1.5))
   \<and> movingHasTarget (createAIComponent ''wander'' None)
   \<and> targetOnlyWhilePursuing (createAIComponent ''wander'' None)
   \<and> setTarget 1 (Some origin) world = Inr seeking
   \<and> movingHasTarget seekingAI \<and> targetOnlyWhilePursuing seekingAI
   \<and> updateEntityAI env1 1 16 world = Inr (writeComponent 1 AI (AIC wanderingAI) pushed)
   \<and> movingHasTarget wanderingAI \<and> targetOnlyWhilePursuing wanderingAI"
proof -
  have 1: "setTarget 1 (Some origin) world = Inr seeking"
    by (simp add: setTarget_def getAI_Some [OF world_components(3)] seeking_def seekingAI_def)
  have 2: "movingHasTarget (createAIComponent ''wander'' None)"
    "targetOnlyWhilePursuing (createAIComponent ''wander'' None)"
    "movingHasTarget seekingAI" "targetOnlyWhilePursuing seekingAI"
    "movingHasTarget wanderingAI" "targetOnlyWhilePursuing wanderingAI"
    by (simp_all add: movingHasTarget_def targetOnlyWhilePursuing_def pursuing_def
          createAIComponent_def seekingAI_def wanderingAI_def)
  have d: "planarDistance origin \<lparr>X = 5, Y = 0, Z = 0\<rparr> = 5"
    by (simp add: planarDistance_def origin_def)
  have p: "position (createTransformComponent 0 0 0 origin) = origin"
    by (simp add: createTransformComponent_def origin_def)
  have mt: "moveTowards 1 \<lparr>X = 5, Y = 0, Z = 0\<rparr> 16 world = Inr (Some False, pushed)"
    by (simp add: moveTowards_Some [OF world_components(1,2)] p d pushed_def)
       (simp add: origin_def createMovementComponent_def)
  have c: "chooseNewWanderTarget env1 (createAIComponent ''wander'' None)
             (createTransformComponent 0 0 0 origin)
           = (createAIComponent ''wander'' None)\<lparr>targetPosition := Some \<lparr>X = 5, Y = 0, Z = 0\<rparr>\<rparr>"
    by (simp add: chooseNewWanderTarget_def env1_def createAIComponent_def
          createTransformComponent_def origin_def Let_def)
  have 3: "updateEntityAI env1 1 16 world = Inr (writeComponent 1 AI (AIC wanderingAI) pushed)"
  proof -
    have e: "currentTime env1 = 5000" by (simp add: env1_def)
    have a: "behavior (createAIComponent ''wander'' None) = ''wander''"
      "lastDirectionChange (createAIComponent ''wander'' None) = 0"
      "directionChangeInterval (createAIComponent ''wander'' None) = 2000"
      by (simp_all add: createAIComponent_def)
    show ?thesis
      by (simp add: updateEntityAI_def getAI_Some [OF world_components(3)]
            getTransform_Some [OF world_components(1)] handleWanderBehavior_def Let_def e a c mt
            wanderingAI_def)
  qed
  show ?thesis
    using ai_properties_amended [OF world_components(3), of origin "''idle''" 0
            "createTransformComponent 0 0 0 origin" "createMovementComponent 2 1.5" env1 16]
      world_components 1 2 3
    by simp
qed

end
